theory Spec2Isabelle
  imports Main "HOL-Library.Word"
begin

section \<open>JavaScript values shared by both batch runners\<close>

text \<open>
  A JavaScript string is a sequence of UTF-16 code units. String literals of the
  scripts are ASCII; \<open>js\<close> turns an ASCII literal into its code units.
\<close>

type_synonym code_unit = "16 word"
type_synonym jsstring = "code_unit list"

definition js :: "string \<Rightarrow> jsstring" where
  "js s = map (\<lambda>c. of_nat (of_char c)) s"

text \<open>A thrown \<open>Error\<close> is identified by its message.\<close>

type_synonym js_error = jsstring

text \<open>
  \<open>sleep = ms => new Promise(r => setTimeout(r, ms))\<close>. Node's \<open>setTimeout\<close>
  sets a delay below 1 or above 2147483647 to 1; the model's clock (milliseconds,
  the value of \<open>Date.now()\<close>) advances by exactly the timer's delay.
\<close>

definition timer_delay :: "int \<Rightarrow> int" where
  "timer_delay ms = (if ms < 1 \<or> 2147483647 < ms then 1 else ms)"

section \<open>Completion detector\<close>

text \<open>
  \<open>waitForResponseStability\<close> (ChatGPT runner) and \<open>waitForClaudeStability\<close>
  (Claude runner) are the same loop around two different accessors of the rendered
  text. The accessor is a function of the clock: \<open>read t\<close> is what the page
  evaluation returns (or throws) when it runs at time \<open>t\<close>.
  The loop state is \<open>lastText\<close> (\<open>last\<close> in the Claude runner), \<open>stableSince\<close> and the clock \<open>now\<close>; the result is
  the returned text with the clock at the moment of the return.
\<close>

record stability_opts =
  stabilityMs :: int
  maxTimeout :: int
  pollInterval :: int

definition default_opts :: stability_opts where
  "default_opts = \<lparr>stabilityMs = 3000, maxTimeout = 60000, pollInterval = 1000\<rparr>"

function stabilityLoop ::
  "(int \<Rightarrow> js_error + jsstring) \<Rightarrow> stability_opts \<Rightarrow> int \<Rightarrow> jsstring \<Rightarrow> int \<Rightarrow> int
     \<Rightarrow> js_error + (jsstring \<times> int)" where
  "stabilityLoop read opts start lastText stableSince now =
     (if now - start < maxTimeout opts then
        (case read now of
           Inl e \<Rightarrow> Inl e
         | Inr current \<Rightarrow>
             if current = lastText then
               if now - stableSince \<ge> stabilityMs opts then Inr (current, now)
               else stabilityLoop read opts start lastText stableSince
                      (now + timer_delay (pollInterval opts))
             else stabilityLoop read opts start current now
                    (now + timer_delay (pollInterval opts)))
      else Inr (lastText, now))"
  by pat_completeness auto
termination
  by (relation "measure (\<lambda>(read, opts, start, lastText, stableSince, now).
          nat (maxTimeout opts - (now - start)))")
     (auto simp: timer_delay_def)

declare stabilityLoop.simps [simp del]

definition waitForStability ::
  "(int \<Rightarrow> js_error + jsstring) \<Rightarrow> stability_opts \<Rightarrow> int \<Rightarrow> js_error + (jsstring \<times> int)" where
  "waitForStability read opts start = stabilityLoop read opts start [] start start"

text \<open>
  The two accessors. \<open>String.prototype.trim\<close> removes white space and line
  terminators, so \<open>t.trim() !== ''\<close> holds exactly when \<open>t\<close> has a code unit
  that is neither.
\<close>

definition is_js_space :: "code_unit \<Rightarrow> bool" where
  "is_js_space u =
     (u \<in> {0x9, 0xA, 0xB, 0xC, 0xD, 0x20, 0xA0, 0x1680, 0x2028, 0x2029, 0x202F, 0x205F,
            0x3000, 0xFEFF} \<or> (0x2000 \<le> u \<and> u \<le> 0x200A))"

definition trim_nonempty :: "jsstring \<Rightarrow> bool" where
  "trim_nonempty t = (\<not> list_all is_js_space t)"

fun join :: "jsstring \<Rightarrow> jsstring list \<Rightarrow> jsstring" where
  "join sep [] = []"
| "join sep [x] = x"
| "join sep (x # y # ys) = x @ sep @ join sep (y # ys)"

text \<open>
  ChatGPT: \<open>page.$$eval('p', els => els.map(e => e.innerText).filter(t => t.trim() !== ''))\<close>
  joined by a blank line. The page is the list of the \<open>innerText\<close> of its \<open>p\<close>
  elements at each time, or the error the evaluation throws.
\<close>

definition gptReadText :: "(int \<Rightarrow> js_error + jsstring list) \<Rightarrow> int \<Rightarrow> js_error + jsstring" where
  "gptReadText page t =
     (case page t of
        Inl e \<Rightarrow> Inl e
      | Inr ps \<Rightarrow> Inr (join (js ''\<newline>\<newline>'') (filter trim_nonempty ps)))"

definition waitForResponseStability ::
  "(int \<Rightarrow> js_error + jsstring list) \<Rightarrow> stability_opts \<Rightarrow> int \<Rightarrow> js_error + (jsstring \<times> int)" where
  "waitForResponseStability page opts start = waitForStability (gptReadText page) opts start"

text \<open>
  Claude: \<open>claude.readVisibleText\<close> reads the paragraphs of the latest response block
  (the page is the list of blocks, each the \<open>innerText\<close> of its paragraphs), returns
  \<open>''\<close> when there is no block, and turns a failed evaluation into \<open>''\<close>.
\<close>

definition readVisibleText :: "(int \<Rightarrow> js_error + jsstring list list) \<Rightarrow> int \<Rightarrow> jsstring" where
  "readVisibleText page t =
     (case page t of
        Inl e \<Rightarrow> []
      | Inr blocks \<Rightarrow>
          if blocks = [] then []
          else join (js ''\<newline>\<newline>'') (filter (\<lambda>t. t \<noteq> [] \<and> trim_nonempty t) (last blocks)))"

definition waitForClaudeStability ::
  "(int \<Rightarrow> js_error + jsstring list list) \<Rightarrow> stability_opts \<Rightarrow> int \<Rightarrow> js_error + (jsstring \<times> int)" where
  "waitForClaudeStability page opts start =
     waitForStability (\<lambda>t. Inr (readVisibleText page t)) opts start"

text \<open>
  A text source for tests: it shows the \<open>k\<close>-th snapshot of a list at tick \<open>k\<close> after
  \<open>t0\<close> and keeps the final snapshot from then on.
\<close>

definition emits :: "jsstring list \<Rightarrow> int \<Rightarrow> int \<Rightarrow> js_error + jsstring" where
  "emits xs t0 t = Inr (if xs = [] then [] else xs ! min (nat (t - t0)) (length xs - 1))"

section \<open>Network trace and correlation\<close>

text \<open>
  A trace file holds \<open>harJson.log.entries\<close>. Of an entry the scripts read
  \<open>entry.response?.content?.mimeType\<close> and write \<open>content.text\<close> and
  \<open>content.size\<close>; \<open>response\<close> and \<open>content\<close> may be absent, and so may each
  of the three properties. All other properties of an object are kept together in
  its \<open>..._other\<close> field (name and serialised value).
\<close>

type_synonym other_fields = "(jsstring \<times> jsstring) list"

record har_content =
  mimeType :: "jsstring option"
  content_text :: "jsstring option"
  content_size :: "int option"
  content_other :: other_fields

record har_response =
  content :: "har_content option"
  response_other :: other_fields

record har_entry =
  response :: "har_response option"
  entry_other :: other_fields

text \<open>
  \<open>Buffer.byteLength(s, 'utf8')\<close> of Node: the length of the UTF-8 encoding of a
  UTF-16 string. A code unit below 0x80 takes one byte, below 0x800 two; a high
  surrogate followed by a low surrogate is one code point of four bytes; every other
  code unit, a lone surrogate included (encoded as U+FFFD), takes three.
\<close>

definition unit_bytes :: "code_unit \<Rightarrow> nat" where
  "unit_bytes u = (if u < 0x80 then 1 else if u < 0x800 then 2 else 3)"

fun byteLength :: "jsstring \<Rightarrow> nat" where
  "byteLength [] = 0"
| "byteLength [u] = unit_bytes u"
| "byteLength (u # v # rest) =
     (if 0xD800 \<le> u \<and> u \<le> 0xDBFF \<and> 0xDC00 \<le> v \<and> v \<le> 0xDFFF
      then 4 + byteLength rest
      else unit_bytes u + byteLength (v # rest))"

text \<open>\<open>entry.response?.content?.mimeType === 'text/event-stream'\<close>\<close>

definition isEventStream :: "har_entry \<Rightarrow> bool" where
  "isEventStream entry =
     (case response entry of
        None \<Rightarrow> False
      | Some r \<Rightarrow>
          (case content r of
             None \<Rightarrow> False
           | Some c \<Rightarrow> mimeType c = Some (js ''text/event-stream'')))"

text \<open>
  The two assignments \<open>entry.response.content.text = sseText\<close> and
  \<open>entry.response.content.size = Buffer.byteLength(sseText, 'utf8')\<close>.
\<close>

definition setStreamBody :: "har_entry \<Rightarrow> jsstring \<Rightarrow> har_entry" where
  "setStreamBody entry sseText =
     entry\<lparr>response :=
       map_option (\<lambda>r. r\<lparr>content :=
         map_option (\<lambda>c. c\<lparr>content_text := Some sseText,
                              content_size := Some (int (byteLength sseText))\<rparr>) (content r)\<rparr>)
         (response entry)\<rparr>"

text \<open>The \<open>for (const entry of harJson.log.entries)\<close> loop with its \<open>break\<close>.\<close>

fun injectSse :: "har_entry list \<Rightarrow> jsstring \<Rightarrow> har_entry list" where
  "injectSse [] sseText = []"
| "injectSse (entry # rest) sseText =
     (if isEventStream entry then setStreamBody entry sseText # rest
      else entry # injectSse rest sseText)"

section \<open>Files, console and page of a batch run\<close>

text \<open>
  Files are named by their place in the output layout: the trace and the response of
  prompt \<open>n\<close> (one-based) under the output directory of a job. A trace file is kept
  as the value \<open>JSON.parse\<close> reads from it and \<open>JSON.stringify\<close> writes to it.
\<close>

datatype path = HarPath jsstring nat | AnswerPath jsstring nat

datatype file_content = HarFile "har_entry list" | TextFile jsstring

datatype log_line =
    LoadedPrompts nat jsstring
  | PromptBanner nat nat jsstring
  | SseNotCaptured js_error
  | NoDetectableAnswer nat
  | CapturedAnswer jsstring
  | ErrorProcessingPrompt nat js_error
  | HarSaved path
  | HarStopFailed js_error
  | HarUpdated path
  | InjectFailed js_error
  | AnswerSaved path
  | AnswerWriteFailed js_error
  | NewChatFailed js_error
  | FatalMainFlow js_error
  | BrowserClosedLine
  | ErrorClosingBrowser js_error

datatype log_level = Log | Warn | Error

text \<open>Which of \<open>console.log\<close>, \<open>console.warn\<close> and \<open>console.error\<close> prints a line.\<close>

fun level :: "log_line \<Rightarrow> log_level" where
  "level (LoadedPrompts n f) = Log"
| "level (PromptBanner i n t) = Log"
| "level (SseNotCaptured e) = Warn"
| "level (NoDetectableAnswer i) = Warn"
| "level (CapturedAnswer t) = Log"
| "level (ErrorProcessingPrompt i e) = Error"
| "level (HarSaved p) = Log"
| "level (HarStopFailed e) = Warn"
| "level (HarUpdated p) = Log"
| "level (InjectFailed e) = Error"
| "level (AnswerSaved p) = Log"
| "level (AnswerWriteFailed e) = Warn"
| "level (NewChatFailed e) = Warn"
| "level (FatalMainFlow e) = Error"
| "level BrowserClosedLine = Log"
| "level (ErrorClosingBrowser e) = Warn"

datatype event =
    Console log_line
  | OutDirEnsured jsstring
  | CatalogSaved jsstring jsstring "jsstring list"
  | BrowserLaunched
  | BrowserClosed
  | HarStart jsstring nat
  | Submitted jsstring

text \<open>
  The world of a run: the files written, what has happened so far, and the rejections of
  promises that nothing awaits. Node ends the process at an unhandled rejection, so a
  world with one is the world of a process that has ended.
\<close>

record world =
  files :: "path \<rightharpoonup> file_content"
  events :: "event list"
  unhandled :: "js_error list"

definition emit :: "event \<Rightarrow> world \<Rightarrow> world" where
  "emit ev w = w\<lparr>events := events w @ [ev]\<rparr>"

definition writeFile :: "path \<Rightarrow> file_content \<Rightarrow> world \<Rightarrow> world" where
  "writeFile p c w = w\<lparr>files := (files w)(p \<mapsto> c)\<rparr>"

text \<open>
  What the browser, the site and the file system do during the processing of one
  prompt: the outcome of every awaited call, in the order of the script. \<open>None\<close>
  is a call that returns, \<open>Some e\<close> and \<open>Inl e\<close> a call that throws \<open>e\<close>.
  \<open>plus_click i\<close> is the outcome of the \<open>i\<close>-th try to find and click the
  composer's plus button, \<open>web_menu\<close> that of the menu steps after it.
  \<open>sse_response\<close> is what awaiting the promise of \<open>page.waitForResponse\<close> and the
  body of its response gives; \<open>orphan_wait\<close> is what becomes of that promise when
  sending the prompt throws and the promise is never awaited: \<open>None\<close> when a later
  streaming response settles it, \<open>Some e\<close> when it is rejected with \<open>e\<close> (no such
  response within its 120 s, or the page is closed).
\<close>

record 'd page_run =
  har_start :: "js_error option"
  plus_click :: "nat \<Rightarrow> js_error option"
  web_menu :: "js_error option"
  submit :: "js_error option"
  orphan_wait :: "js_error option"
  sse_response :: "js_error + jsstring"
  detect_at :: int
  dom :: "int \<Rightarrow> js_error + 'd"
  har_stop :: "js_error + har_entry list"
  har_write :: "js_error option"
  iso_time :: jsstring
  answer_write :: "js_error option"
  new_chat :: "js_error option"
  reload :: "js_error option"

record 'd batch_env =
  open_site :: "js_error option"
  runs :: "nat \<Rightarrow> 'd page_run"

section \<open>The batch runners\<close>

text \<open>
  The code after the prompt is sent is the same in both runners but for the detector:
  await the streaming response and its body (a failure is caught and leaves
  \<open>sseText = ''\<close>), wait for the answer to stabilise, and log what was captured.
  The result is \<open>(finalAnswer, sseText)\<close>; a throw out of the detector is caught by the
  \<open>catch\<close> of the prompt, which leaves \<open>finalAnswer = ''\<close>. The \<open>sleep(1000)\<close>
  that ends the \<open>try\<close> block changes nothing the model keeps.
\<close>

definition captureAndWait ::
  "(js_error + (jsstring \<times> int)) \<Rightarrow> 'd page_run \<Rightarrow> nat \<Rightarrow> world \<Rightarrow> (jsstring \<times> jsstring) \<times> world" where
  "captureAndWait detected r idx w =
     (let (sseText, w1) =
            (case sse_response r of
               Inl e \<Rightarrow> ([], emit (Console (SseNotCaptured e)) w)
             | Inr body \<Rightarrow> (body, w))
      in case detected of
           Inl e \<Rightarrow> (([], sseText), emit (Console (ErrorProcessingPrompt (idx + 1) e)) w1)
         | Inr (finalAnswer, t) \<Rightarrow>
             ((finalAnswer, sseText),
              emit (Console
                (if finalAnswer = [] \<or> \<not> trim_nonempty finalAnswer
                 then NoDetectableAnswer (idx + 1)
                 else CapturedAnswer
                        (map (\<lambda>u. if u = 0xA then 0x20 else u) (take 250 finalAnswer)))) w1))"

text \<open>
  \<open>safeClick\<close>, the click helper of the ChatGPT runner: up to \<open>attempts\<close> tries;
  a try whose error message has one of four phrases is followed by \<open>sleep(500)\<close> and
  the next try, any other error is thrown on, and when the tries are used up
  \<open>safeClick failed\<close> is thrown. The result is the error thrown, if any, the number of
  tries made and the milliseconds slept between them; \<open>i\<close> is the loop counter and
  \<open>slept\<close> the time slept so far.
\<close>

fun js_includes :: "jsstring \<Rightarrow> jsstring \<Rightarrow> bool" where
  "js_includes [] part = (part = [])"
| "js_includes (u # us) part = (take (length part) (u # us) = part \<or> js_includes us part)"

definition retriedMessage :: "jsstring \<Rightarrow> bool" where
  "retriedMessage msg =
     (js_includes msg (js ''detached frame'') \<or>
      js_includes msg (js ''Node is detached'') \<or>
      js_includes msg (js ''Execution context was destroyed'') \<or>
      js_includes msg (js ''TimeoutError''))"

function safeClick ::
  "(nat \<Rightarrow> js_error option) \<Rightarrow> jsstring \<Rightarrow> nat \<Rightarrow> nat \<Rightarrow> int
     \<Rightarrow> js_error option \<times> nat \<times> int" where
  "safeClick click selector attempts i slept =
     (if i < attempts then
        (case click i of
           None \<Rightarrow> (None, Suc i, slept)
         | Some msg \<Rightarrow>
             if retriedMessage msg
             then safeClick click selector attempts (Suc i) (slept + timer_delay 500)
             else (Some msg, Suc i, slept))
      else (Some (js ''safeClick failed for selector '' @ selector), i, slept))"
  by pat_completeness auto
termination
  by (relation "measure (\<lambda>(click, selector, attempts, i, slept). attempts - i)") auto

declare safeClick.simps [simp del]

text \<open>
  \<open>enableWebSearch\<close>: \<open>safeClick\<close> on the plus button with the default three tries,
  then the menu steps.
\<close>

definition plusButton :: jsstring where
  "plusButton = js ''button[data-testid='' @ [0x27] @ js ''composer-plus-btn'' @ [0x27] @ js '']''"

definition enableWebSearch :: "'d page_run \<Rightarrow> js_error option" where
  "enableWebSearch r =
     (case fst (safeClick (plus_click r) plusButton 3 0 0) of
        Some e \<Rightarrow> Some e
      | None \<Rightarrow> web_menu r)"

text \<open>
  The promise of \<open>page.waitForResponse\<close> is created before the prompt is sent and
  awaited only after it. When sending the prompt throws, control goes to the \<open>catch\<close>
  of the prompt and nothing ever awaits the promise; when it is rejected, the rejection
  is unhandled.
\<close>

definition orphanedWait :: "'d page_run \<Rightarrow> world \<Rightarrow> world" where
  "orphanedWait r w =
     (case orphan_wait r of
        None \<Rightarrow> w
      | Some e \<Rightarrow> w\<lparr>unhandled := unhandled w @ [e]\<rparr>)"

text \<open>
  The \<open>try\<close> block of the ChatGPT runner. \<open>enableWebSearch\<close> runs before the promise
  is created. \<open>submit\<close> stands for finding the composer, clicking it, selecting its
  content, typing the prompt and pressing Enter.
\<close>

definition gptTry ::
  "jsstring list page_run \<Rightarrow> nat \<Rightarrow> jsstring \<Rightarrow> world \<Rightarrow> (jsstring \<times> jsstring) \<times> world" where
  "gptTry r idx promptText w =
     (case enableWebSearch r of
        Some e \<Rightarrow> (([], []), emit (Console (ErrorProcessingPrompt (idx + 1) e)) w)
      | None \<Rightarrow>
          (case submit r of
             Some e \<Rightarrow>
               (([], []), orphanedWait r (emit (Console (ErrorProcessingPrompt (idx + 1) e)) w))
           | None \<Rightarrow>
               captureAndWait (waitForResponseStability (dom r) default_opts (detect_at r))
                 r idx (emit (Submitted promptText) w)))"

text \<open>
  The \<open>try\<close> block of the Claude runner; \<open>claude.enableWeb\<close> does nothing, the
  promise is created, and \<open>submit\<close> stands for \<open>claude.submitPrompt\<close>.
\<close>

definition claudeTry ::
  "jsstring list list page_run \<Rightarrow> nat \<Rightarrow> jsstring \<Rightarrow> world \<Rightarrow> (jsstring \<times> jsstring) \<times> world" where
  "claudeTry r idx promptText w =
     (case submit r of
        Some e \<Rightarrow>
          (([], []), orphanedWait r (emit (Console (ErrorProcessingPrompt (idx + 1) e)) w))
      | None \<Rightarrow>
          captureAndWait (waitForClaudeStability (dom r) default_opts (detect_at r))
            r idx (emit (Submitted promptText) w))"

text \<open>
  The \<open>finally\<close> block, the same text in both runners: stop the recorder (which writes
  the trace file), inject the stream text into the trace file, save the answer.
\<close>

definition stopHar :: "'d page_run \<Rightarrow> path \<Rightarrow> world \<Rightarrow> world" where
  "stopHar r harFilename w =
     (case har_stop r of
        Inr entries \<Rightarrow> emit (Console (HarSaved harFilename)) (writeFile harFilename (HarFile entries) w)
      | Inl e \<Rightarrow> emit (Console (HarStopFailed e)) w)"

definition readHar :: "world \<Rightarrow> path \<Rightarrow> js_error + har_entry list" where
  "readHar w harFilename =
     (case files w harFilename of
        None \<Rightarrow> Inl (js ''ENOENT: no such file or directory'')
      | Some (TextFile t) \<Rightarrow> Inl (js ''SyntaxError: not a trace'')
      | Some (HarFile entries) \<Rightarrow> Inr entries)"

definition injectSseIntoHar :: "'d page_run \<Rightarrow> path \<Rightarrow> jsstring \<Rightarrow> world \<Rightarrow> world" where
  "injectSseIntoHar r harFilename sseText w =
     (case readHar w harFilename of
        Inl e \<Rightarrow> emit (Console (InjectFailed e)) w
      | Inr entries \<Rightarrow>
          (case har_write r of
             Some e \<Rightarrow> emit (Console (InjectFailed e)) w
           | None \<Rightarrow>
               emit (Console (HarUpdated harFilename))
                 (writeFile harFilename (HarFile (injectSse entries sseText)) w)))"

definition answerFile :: "jsstring \<Rightarrow> jsstring \<Rightarrow> jsstring \<Rightarrow> jsstring" where
  "answerFile promptText isoTime finalAnswer =
     (js ''Prompt: '' @ promptText @ js ''\<newline>Timestamp: '' @ isoTime @ js ''\<newline>\<newline>'')
     @ (if finalAnswer = [] then js ''[no answer captured]'' else finalAnswer)"

definition saveAnswer :: "'d page_run \<Rightarrow> path \<Rightarrow> jsstring \<Rightarrow> jsstring \<Rightarrow> world \<Rightarrow> world" where
  "saveAnswer r answerFilename promptText finalAnswer w =
     (case answer_write r of
        Some e \<Rightarrow> emit (Console (AnswerWriteFailed e)) w
      | None \<Rightarrow>
          emit (Console (AnswerSaved answerFilename))
            (writeFile answerFilename
               (TextFile (answerFile promptText (iso_time r) finalAnswer)) w))"

definition finallyBlock ::
  "'d page_run \<Rightarrow> jsstring \<Rightarrow> nat \<Rightarrow> jsstring \<Rightarrow> jsstring \<times> jsstring \<Rightarrow> world \<Rightarrow> world" where
  "finallyBlock r outDir idx promptText captured w =
     (case captured of (finalAnswer, sseText) \<Rightarrow>
        saveAnswer r (AnswerPath outDir (idx + 1)) promptText finalAnswer
          (injectSseIntoHar r (HarPath outDir (idx + 1)) sseText
             (stopHar r (HarPath outDir (idx + 1)) w)))"

text \<open>
  One pass of the \<open>for\<close> loop. The result is the error that leaves
  \<open>processPromptsBatch\<close>, if any, and the world after the pass. \<open>har.start\<close> and,
  in the ChatGPT runner, the key presses that open a new chat are outside every
  \<open>try\<close>; the Claude runner reloads the page when the new chat fails.
\<close>

definition gptPrompt ::
  "jsstring list page_run \<Rightarrow> jsstring \<Rightarrow> nat \<Rightarrow> nat \<Rightarrow> jsstring \<Rightarrow> world \<Rightarrow> js_error option \<times> world" where
  "gptPrompt r outDir n_prompts idx prompt w =
     (let promptText = prompt;
          w0 = emit (Console (PromptBanner (idx + 1) n_prompts promptText)) w
      in case har_start r of
           Some e \<Rightarrow> (Some e, w0)
         | None \<Rightarrow>
             (case gptTry r idx promptText (emit (HarStart outDir (idx + 1)) w0) of
                (captured, w1) \<Rightarrow>
                  (new_chat r, finallyBlock r outDir idx promptText captured w1)))"

definition claudePrompt ::
  "jsstring list list page_run \<Rightarrow> jsstring \<Rightarrow> nat \<Rightarrow> nat \<Rightarrow> jsstring \<Rightarrow> world
     \<Rightarrow> js_error option \<times> world" where
  "claudePrompt r outDir n_prompts idx prompt w =
     (let promptText = js ''Search the web for: '' @ prompt;
          w0 = emit (Console (PromptBanner (idx + 1) n_prompts promptText)) w
      in case har_start r of
           Some e \<Rightarrow> (Some e, w0)
         | None \<Rightarrow>
             (case claudeTry r idx promptText (emit (HarStart outDir (idx + 1)) w0) of
                (captured, w1) \<Rightarrow>
                  (let w2 = finallyBlock r outDir idx promptText captured w1
                   in case new_chat r of
                        None \<Rightarrow> (None, w2)
                      | Some e \<Rightarrow> (reload r, emit (Console (NewChatFailed e)) w2))))"

text \<open>
  \<open>for (let idx = 0; idx < prompts.length; idx++)\<close>, as a recursion over the prompts
  from \<open>idx\<close> on; the pass of a prompt is a parameter, so that both runners share it.
  A pass that leaves an unhandled rejection is the last one: the process ends when the
  rejection fires, and the model keeps nothing of what the script does between the end
  of that pass and then.
\<close>

fun promptLoop ::
  "('d page_run \<Rightarrow> nat \<Rightarrow> jsstring \<Rightarrow> world \<Rightarrow> js_error option \<times> world) \<Rightarrow> (nat \<Rightarrow> 'd page_run)
     \<Rightarrow> nat \<Rightarrow> jsstring list \<Rightarrow> world \<Rightarrow> js_error option \<times> world" where
  "promptLoop pass env idx [] w = (None, w)"
| "promptLoop pass env idx (prompt # rest) w =
     (case pass (env idx) idx prompt w of
        (Some e, w') \<Rightarrow> (Some e, w')
      | (None, w') \<Rightarrow>
          if unhandled w' = [] then promptLoop pass env (Suc idx) rest w' else (None, w'))"

definition processPromptsBatchGPT ::
  "jsstring list batch_env \<Rightarrow> jsstring list \<Rightarrow> jsstring \<Rightarrow> world \<Rightarrow> js_error option \<times> world" where
  "processPromptsBatchGPT env prompts outDir w =
     (case open_site env of
        Some e \<Rightarrow> (Some e, w)
      | None \<Rightarrow>
          promptLoop (\<lambda>r. gptPrompt r outDir (length prompts)) (runs env) 0 prompts w)"

definition processPromptsBatchClaude ::
  "jsstring list list batch_env \<Rightarrow> jsstring list \<Rightarrow> jsstring \<Rightarrow> world \<Rightarrow> js_error option \<times> world" where
  "processPromptsBatchClaude env prompts outDir w =
     (case open_site env of
        Some e \<Rightarrow> (Some e, w)
      | None \<Rightarrow>
          promptLoop (\<lambda>r. claudePrompt r outDir (length prompts)) (runs env) 0 prompts w)"

section \<open>Prompt catalog and start-up\<close>

text \<open>
  The CSV files of the file system: \<open>None\<close> where \<open>fs.existsSync\<close> is false,
  otherwise what \<open>parse(content, {columns: true, skip_empty_lines: false,
  relax_column_count: true})\<close> of \<open>csv-parse/sync\<close> does with the content: it throws,
  or it returns the records, one object per data row, from the header's column names
  to the row's cells (a row shorter than the header has no property for the columns
  it lacks).
\<close>

datatype csv_parse = ParseFails jsstring | Records "(jsstring \<rightharpoonup> jsstring) list"

type_synonym csv_store = "jsstring \<rightharpoonup> csv_parse"

text \<open>
  The records \<open>csv-parse\<close> makes of a header line and the data rows under these
  options: each row's cells are paired with the column names in order; a row shorter
  than the header gets no property for the columns it lacks, and the cells of a longer
  row beyond the header are dropped.
\<close>

definition toRecords :: "jsstring list \<Rightarrow> jsstring list list \<Rightarrow> (jsstring \<rightharpoonup> jsstring) list" where
  "toRecords header rows = map (\<lambda>row. map_of (zip header row)) rows"

definition loadCsvPrompts :: "csv_store \<Rightarrow> jsstring \<Rightarrow> js_error + jsstring list" where
  "loadCsvPrompts csv csvFile =
     (case csv csvFile of
        None \<Rightarrow> Inl (js ''Missing CSV file: '' @ csvFile)
      | Some (ParseFails msg) \<Rightarrow>
          Inl (js ''Failed to parse CSV ('' @ csvFile @ js ''): '' @ msg)
      | Some (Records records) \<Rightarrow>
          (case records of
             [] \<Rightarrow> Inl (js ''CSV has no data rows: '' @ csvFile)
           | first # others \<Rightarrow>
               if first (js ''query'') = None
               then Inl (js ''CSV does not have a '' @ [0x27] @ js ''query'' @ [0x27]
                         @ js '' header column: '' @ csvFile)
               else Inr (map (\<lambda>r. case r (js ''query'') of None \<Rightarrow> [] | Some cell \<Rightarrow> cell)
                           records)))"

text \<open>
  What the file system and the browser do at start-up and at the end of \<open>main\<close>:
  creating an output directory, writing the three catalog files into it, launching
  the browser, listing its pages and closing it.
\<close>

record startup_env =
  csv_files :: csv_store
  mkdir :: "jsstring \<Rightarrow> js_error option"
  write_catalog :: "jsstring \<Rightarrow> js_error option"
  launch :: "js_error option"
  pages :: "js_error option"
  close_browser :: "js_error option"

record job =
  job_file :: jsstring
  job_outDir :: jsstring

definition savePromptsCatalog ::
  "startup_env \<Rightarrow> jsstring \<Rightarrow> jsstring \<Rightarrow> jsstring list \<Rightarrow> world \<Rightarrow> js_error option \<times> world" where
  "savePromptsCatalog env dir csvFile prompts w =
     (case mkdir env dir of
        Some e \<Rightarrow> (Some e, w)
      | None \<Rightarrow>
          (case write_catalog env dir of
             Some e \<Rightarrow> (Some e, emit (OutDirEnsured dir) w)
           | None \<Rightarrow> (None, emit (CatalogSaved dir csvFile prompts) (emit (OutDirEnsured dir) w))))"

text \<open>
  \<open>csvJobs.map(job => ...)\<close>: load and save the catalog of each job in turn. An
  error thrown for one job ends the map, and with it \<open>main\<close>.
\<close>

fun loadJobs ::
  "startup_env \<Rightarrow> job list \<Rightarrow> world \<Rightarrow> (js_error + (job \<times> jsstring list) list) \<times> world" where
  "loadJobs env [] w = (Inr [], w)"
| "loadJobs env (j # rest) w =
     (case loadCsvPrompts (csv_files env) (job_file j) of
        Inl e \<Rightarrow> (Inl e, w)
      | Inr prompts \<Rightarrow>
          (case savePromptsCatalog env (job_outDir j) (job_file j) prompts
                  (emit (Console (LoadedPrompts (length prompts) (job_file j))) w) of
             (Some e, w1) \<Rightarrow> (Inl e, w1)
           | (None, w1) \<Rightarrow>
               (case loadJobs env rest w1 of
                  (Inl e, w2) \<Rightarrow> (Inl e, w2)
                | (Inr loaded, w2) \<Rightarrow> (Inr ((j, prompts) # loaded), w2))))"

text \<open>
  The \<open>for (const {file, outDir, prompts} of jobData)\<close> loop inside the \<open>try\<close> of
  \<open>main\<close>: an error out of a batch is caught and logged, and ends the loop; so does
  the end of the process.
\<close>

fun runJobs ::
  "('d batch_env \<Rightarrow> jsstring list \<Rightarrow> jsstring \<Rightarrow> world \<Rightarrow> js_error option \<times> world)
     \<Rightarrow> (nat \<Rightarrow> 'd batch_env) \<Rightarrow> nat \<Rightarrow> (job \<times> jsstring list) list \<Rightarrow> world \<Rightarrow> world" where
  "runJobs batch benv k [] w = w"
| "runJobs batch benv k ((j, prompts) # rest) w =
     (case batch (benv k) prompts (job_outDir j) w of
        (Some e, w1) \<Rightarrow> emit (Console (FatalMainFlow e)) w1
      | (None, w1) \<Rightarrow>
          if unhandled w1 = [] then runJobs batch benv (Suc k) rest w1 else w1)"

text \<open>
  The main flow of both runners, with the runner's \<open>processPromptsBatch\<close> as a
  parameter. The result is the error that ends the process, if any: the error that
  rejects the \<open>async\<close> main function (nothing catches an error thrown before the
  \<open>try\<close>), or the first unhandled rejection of the batches.
\<close>

definition mainFlow ::
  "('d batch_env \<Rightarrow> jsstring list \<Rightarrow> jsstring \<Rightarrow> world \<Rightarrow> js_error option \<times> world)
     \<Rightarrow> startup_env \<Rightarrow> (nat \<Rightarrow> 'd batch_env) \<Rightarrow> job list \<Rightarrow> world \<Rightarrow> js_error option \<times> world" where
  "mainFlow batch env benv csvJobs w =
     (case loadJobs env csvJobs w of
        (Inl e, w1) \<Rightarrow> (Some e, w1)
      | (Inr jobData, w1) \<Rightarrow>
          (case launch env of
             Some e \<Rightarrow> (Some e, w1)
           | None \<Rightarrow>
               (let w2 = emit BrowserLaunched w1;
                    w3 = (case pages env of
                            Some e \<Rightarrow> emit (Console (FatalMainFlow e)) w2
                          | None \<Rightarrow> runJobs batch benv 0 jobData w2)
                in case unhandled w3 of
                     e # es \<Rightarrow> (Some e, w3)
                   | [] \<Rightarrow>
                       (None,
                        case close_browser env of
                          None \<Rightarrow> emit (Console BrowserClosedLine) (emit BrowserClosed w3)
                        | Some e \<Rightarrow> emit (Console (ErrorClosingBrowser e)) w3))))"

definition mainGPT ::
  "startup_env \<Rightarrow> (nat \<Rightarrow> jsstring list batch_env) \<Rightarrow> job list \<Rightarrow> world \<Rightarrow> js_error option \<times> world" where
  "mainGPT = mainFlow processPromptsBatchGPT"

definition mainClaude ::
  "startup_env \<Rightarrow> (nat \<Rightarrow> jsstring list list batch_env) \<Rightarrow> job list \<Rightarrow> world
     \<Rightarrow> js_error option \<times> world" where
  "mainClaude = mainFlow processPromptsBatchClaude"

section \<open>What a run leaves behind\<close>

text \<open>
  Readings of the event list of a world: the prompts whose recorder was started (one
  per start of a prompt's processing sequence, with the output directory and the
  one-based prompt number), the texts sent to the site, and the console lines.
\<close>

fun attempts :: "event list \<Rightarrow> (jsstring \<times> nat) list" where
  "attempts [] = []"
| "attempts (HarStart d n # evs) = (d, n) # attempts evs"
| "attempts (ev # evs) = attempts evs"

fun submissions :: "event list \<Rightarrow> jsstring list" where
  "submissions [] = []"
| "submissions (Submitted t # evs) = t # submissions evs"
| "submissions (ev # evs) = submissions evs"

fun console :: "event list \<Rightarrow> log_line list" where
  "console [] = []"
| "console (Console l # evs) = l # console evs"
| "console (ev # evs) = console evs"

section \<open>Sample inputs\<close>

text \<open>
  Concrete inputs for the examples below: a trace entry with a content type, a body
  and a size; a page run in which every call returns and the page shows the same
  snapshot throughout; the same run with a plus button that is detached at every try
  to click it, and at the first two tries only; a batch whose first run is the detached one; a world with no files and no
  events; a file system with catalog sources.
\<close>

definition plain_entry :: "jsstring \<Rightarrow> jsstring option \<Rightarrow> int \<Rightarrow> har_entry" where
  "plain_entry mime body n =
     \<lparr>response = Some \<lparr>content = Some \<lparr>mimeType = Some mime, content_text = body,
         content_size = Some n, content_other = []\<rparr>, response_other = []\<rparr>,
      entry_other = []\<rparr>"

definition quiet_run :: "'d \<Rightarrow> har_entry list \<Rightarrow> 'd page_run" where
  "quiet_run d entries =
     \<lparr>har_start = None, plus_click = (\<lambda>i. None), web_menu = None, submit = None,
      orphan_wait = None,
      sse_response = Inr (js ''data: hi''), detect_at = 0, dom = (\<lambda>t. Inr d),
      har_stop = Inr entries, har_write = None, iso_time = js ''2025-01-01T00:00:00.000Z'',
      answer_write = None, new_chat = None, reload = None\<rparr>"

definition empty_world :: world where
  "empty_world = \<lparr>files = Map.empty, events = [], unhandled = []\<rparr>"

definition detached_run :: "'d \<Rightarrow> har_entry list \<Rightarrow> 'd page_run" where
  "detached_run d entries =
     (quiet_run d entries)\<lparr>plus_click := (\<lambda>i. Some (js ''Node is detached from document''))\<rparr>"


definition retry_env :: "'d \<Rightarrow> 'd batch_env" where
  "retry_env d =
     \<lparr>open_site = None, runs = (\<lambda>i. if i = 0 then detached_run d [] else quiet_run d [])\<rparr>"

definition sample_csv :: csv_store where
  "sample_csv f =
     (if f = js ''ok.csv'' then
        Some (Records [[js ''id'' \<mapsto> js ''1'', js ''query'' \<mapsto> js ''hi''],
                       [js ''id'' \<mapsto> js ''2'', js ''query'' \<mapsto> []],
                       [js ''id'' \<mapsto> js ''3'']])
      else if f = js ''noquery.csv'' then Some (Records [[js ''id'' \<mapsto> js ''1'']])
      else if f = js ''short.csv'' then
        Some (Records (toRecords [js ''id'', js ''query''] [[js ''1''], [js ''2'', js ''x'']]))
      else if f = js ''empty.csv'' then Some (Records [])
      else None)"

definition sample_env :: startup_env where
  "sample_env = \<lparr>csv_files = sample_csv, mkdir = (\<lambda>d. None), write_catalog = (\<lambda>d. None),
     launch = None, pages = None, close_browser = None\<rparr>"

section \<open>Properties of the completion detector\<close>

lemma stabilityLoop_timeout:
  "\<not> now - start < maxTimeout opts \<Longrightarrow>
   stabilityLoop read opts start lastText stableSince now = Inr (lastText, now)"
  by (simp add: stabilityLoop.simps)

lemma stabilityLoop_change:
  "now - start < maxTimeout opts \<Longrightarrow> read now = Inr current \<Longrightarrow> current \<noteq> lastText \<Longrightarrow>
   stabilityLoop read opts start lastText stableSince now =
   stabilityLoop read opts start current now (now + timer_delay (pollInterval opts))"
  by (subst stabilityLoop.simps) simp

lemma stabilityLoop_same_wait:
  "now - start < maxTimeout opts \<Longrightarrow> read now = Inr lastText \<Longrightarrow>
   \<not> stabilityMs opts \<le> now - stableSince \<Longrightarrow>
   stabilityLoop read opts start lastText stableSince now =
   stabilityLoop read opts start lastText stableSince (now + timer_delay (pollInterval opts))"
  by (subst stabilityLoop.simps) simp

lemma stabilityLoop_same_done:
  "now - start < maxTimeout opts \<Longrightarrow> read now = Inr lastText \<Longrightarrow>
   stabilityMs opts \<le> now - stableSince \<Longrightarrow>
   stabilityLoop read opts start lastText stableSince now = Inr (lastText, now)"
  by (subst stabilityLoop.simps) simp

lemma timer_delay_pos: "0 < timer_delay ms"
  by (simp add: timer_delay_def)

lemma stabilityLoop_stable_run:
  "\<lbrakk> d = timer_delay (pollInterval opts);
     \<forall>i\<le>m. read (now + int i * d) = Inr c;
     \<forall>i<m. now + int i * d - stableSince < stabilityMs opts;
     stabilityMs opts \<le> now + int m * d - stableSince;
     now + int m * d - start < maxTimeout opts \<rbrakk>
   \<Longrightarrow> stabilityLoop read opts start c stableSince now = Inr (c, now + int m * d)"
proof (induction m arbitrary: now)
  case 0
  then show ?case
    using stabilityLoop_same_done [of now start opts read c stableSince] by simp
next
  case (Suc m)
  have dpos: "0 < d" using Suc.prems(1) timer_delay_pos by simp
  have r0: "read now = Inr c" using Suc.prems(2) [rule_format, of 0] by simp
  have w0: "\<not> stabilityMs opts \<le> now - stableSince"
    using Suc.prems(3) [rule_format, of 0] by simp
  have "0 \<le> int (Suc m) * d" using dpos by simp
  then have t0: "now - start < maxTimeout opts" using Suc.prems(5) by linarith
  have step: "stabilityLoop read opts start c stableSince now =
              stabilityLoop read opts start c stableSince (now + d)"
    using stabilityLoop_same_wait [where read = read and now = now and opts = opts
        and start = start and lastText = c and stableSince = stableSince] t0 r0 w0 Suc.prems(1)
    by simp
  have shift: "\<And>i. now + d + int i * d = now + int (Suc i) * d"
    by (simp add: algebra_simps)
  have "stabilityLoop read opts start c stableSince (now + d) = Inr (c, now + d + int m * d)"
  proof (rule Suc.IH [OF Suc.prems(1)])
    show "\<forall>i\<le>m. read (now + d + int i * d) = Inr c"
      using Suc.prems(2) by (auto simp: shift simp del: of_nat_Suc)
    show "\<forall>i<m. now + d + int i * d - stableSince < stabilityMs opts"
      using Suc.prems(3) by (auto simp: shift simp del: of_nat_Suc)
    show "stabilityMs opts \<le> now + d + int m * d - stableSince"
      using Suc.prems(4) by (simp add: shift del: of_nat_Suc)
    show "now + d + int m * d - start < maxTimeout opts"
      using Suc.prems(5) by (simp add: shift del: of_nat_Suc)
  qed
  with step show ?case by (simp add: shift del: of_nat_Suc)
qed

lemma stabilityLoop_waiting_run:
  "\<lbrakk> d = timer_delay (pollInterval opts);
     \<forall>i<k. read (now + int i * d) = Inr c;
     \<forall>i<k. now + int i * d - stableSince < stabilityMs opts;
     \<forall>i<k. now + int i * d - start < maxTimeout opts \<rbrakk>
   \<Longrightarrow> stabilityLoop read opts start c stableSince now =
       stabilityLoop read opts start c stableSince (now + int k * d)"
proof (induction k arbitrary: now)
  case 0
  then show ?case by simp
next
  case (Suc k)
  have r0: "read now = Inr c" using Suc.prems(2) [rule_format, of 0] by simp
  have w0: "\<not> stabilityMs opts \<le> now - stableSince"
    using Suc.prems(3) [rule_format, of 0] by simp
  have t0: "now - start < maxTimeout opts" using Suc.prems(4) [rule_format, of 0] by simp
  have step: "stabilityLoop read opts start c stableSince now =
              stabilityLoop read opts start c stableSince (now + d)"
    using stabilityLoop_same_wait [where read = read and now = now and opts = opts
        and start = start and lastText = c and stableSince = stableSince] t0 r0 w0 Suc.prems(1)
    by simp
  have shift: "\<And>i. now + d + int i * d = now + int (Suc i) * d"
    by (simp add: algebra_simps)
  have "stabilityLoop read opts start c stableSince (now + d) =
        stabilityLoop read opts start c stableSince (now + d + int k * d)"
  proof (rule Suc.IH [OF Suc.prems(1)])
    show "\<forall>i<k. read (now + d + int i * d) = Inr c"
      using Suc.prems(2) by (auto simp: shift simp del: of_nat_Suc)
    show "\<forall>i<k. now + d + int i * d - stableSince < stabilityMs opts"
      using Suc.prems(3) by (auto simp: shift simp del: of_nat_Suc)
    show "\<forall>i<k. now + d + int i * d - start < maxTimeout opts"
      using Suc.prems(4) by (auto simp: shift simp del: of_nat_Suc)
  qed
  with step show ?case by (simp add: shift del: of_nat_Suc)
qed


subsection \<open>C2: the stability policy on the sequence a, a, a, b, b, b\<close>

theorem stability_aaabbb_not_b:
  "waitForStability (emits [js ''a'', js ''a'', js ''a'', js ''b'', js ''b'', js ''b''] 0)
     \<lparr>stabilityMs = 2, maxTimeout = 60000, pollInterval = 1\<rparr> 0 = Inr (js ''a'', 2) \<and>
   waitForResponseStability
     (\<lambda>t. Inr [[js ''a'', js ''a'', js ''a'', js ''b'', js ''b'', js ''b''] ! min (nat t) 5])
     \<lparr>stabilityMs = 2, maxTimeout = 60000, pollInterval = 1\<rparr> 0 = Inr (js ''a'', 2) \<and>
   waitForClaudeStability
     (\<lambda>t. Inr [[[js ''a'', js ''a'', js ''a'', js ''b'', js ''b'', js ''b''] ! min (nat t) 5]])
     \<lparr>stabilityMs = 2, maxTimeout = 60000, pollInterval = 1\<rparr> 0 = Inr (js ''a'', 2) \<and>
   js ''a'' \<noteq> js ''b''"
  by (simp add: waitForStability_def waitForResponseStability_def waitForClaudeStability_def
      gptReadText_def readVisibleText_def trim_nonempty_def is_js_space_def
      stabilityLoop.simps emits_def timer_delay_def js_def)

text \<open>
  Claim C2, as amended. For a text source that emits the snapshots a, a, a, b, b, b at
  one tick per poll, the detector with a stability window of 2 ticks (and a timeout of
  more than 2 ticks) resolves to the first snapshot a: it returns at the third poll, at
  tick 2, when a has been unchanged for 2 ticks, and it never reads b.
\<close>

theorem stability_aaabbb_resolves_a:
  assumes "2 < M"
  shows "waitForStability (emits [a, a, a, b, b, b] start)
           \<lparr>stabilityMs = 2, maxTimeout = M, pollInterval = 1\<rparr> start = Inr (a, start + 2)"
proof (cases "a = []")
  case True
  with assms show ?thesis
    by (simp add: waitForStability_def stabilityLoop.simps emits_def timer_delay_def)
next
  case False
  with assms show ?thesis
    by (simp add: waitForStability_def stabilityLoop.simps emits_def timer_delay_def)
qed

theorem stability_aaabbb_witness:
  "(2::int) < 60000 \<and>
   waitForStability (emits [js ''a'', js ''a'', js ''a'', js ''b'', js ''b'', js ''b''] 0)
     \<lparr>stabilityMs = 2, maxTimeout = 60000, pollInterval = 1\<rparr> 0 = Inr (js ''a'', 2)"
  using stability_aaabbb_resolves_a [of 60000 "js ''a''" "js ''b''" 0] by simp


subsection \<open>C3: empty text and the stability window\<close>

theorem empty_render_returns_empty:
  "waitForStability (\<lambda>t. Inr []) default_opts 0 = Inr ([], 3000) \<and>
   waitForResponseStability (\<lambda>t. Inr []) default_opts 0 = Inr ([], 3000) \<and>
   waitForClaudeStability (\<lambda>t. Inr []) default_opts 0 = Inr ([], 3000) \<and>
   (3000 :: int) < maxTimeout default_opts"
  by (simp add: waitForStability_def waitForResponseStability_def waitForClaudeStability_def
      gptReadText_def readVisibleText_def stabilityLoop.simps default_opts_def timer_delay_def)

text \<open>
  Claim C3, as amended. Let \<open>d\<close> be the delay between two polls and \<open>n\<close> the number of
  polls after which the stability window has elapsed. The detector does declare
  completion on a render that has not started: when the text is empty at the polls
  \<open>0, ..., n\<close> it returns the empty text at time \<open>n * d\<close> after the start, before
  \<open>maxTimeout\<close>. A flip from empty to non-empty text is a change that restarts the
  window: when the text is empty at the first \<open>k \<le> n\<close> polls and is the non-empty \<open>x\<close>
  at the polls \<open>k, ..., k + n\<close>, the detector returns \<open>x\<close> at time \<open>(k + n) * d\<close>.
\<close>

theorem empty_render_completes:
  assumes d: "d = timer_delay (pollInterval opts)"
    and below: "\<forall>i<n. int i * d < stabilityMs opts"
    and reach: "stabilityMs opts \<le> int n * d"
  shows "(\<forall>read start.
            (\<forall>i\<le>n. read (start + int i * d) = Inr []) \<and> int n * d < maxTimeout opts \<longrightarrow>
            waitForStability read opts start = Inr ([], start + int n * d)) \<and>
         (\<forall>read start k x.
            0 < stabilityMs opts \<and> k \<le> n \<and> x \<noteq> [] \<and>
            (\<forall>i<k. read (start + int i * d) = Inr []) \<and>
            (\<forall>i\<le>n. read (start + int (k + i) * d) = Inr x) \<and>
            int (k + n) * d < maxTimeout opts \<longrightarrow>
            waitForStability read opts start = Inr (x, start + int (k + n) * d))"
proof (intro conjI allI impI)
  fix read :: "int \<Rightarrow> js_error + jsstring" and start :: int
  assume h: "(\<forall>i\<le>n. read (start + int i * d) = Inr []) \<and> int n * d < maxTimeout opts"
  show "waitForStability read opts start = Inr ([], start + int n * d)"
    unfolding waitForStability_def
    using stabilityLoop_stable_run [where d = d and opts = opts and m = n and read = read
        and now = start and c = "[]" and stableSince = start and start = start]
      d below reach h by simp
next
  fix read :: "int \<Rightarrow> js_error + jsstring" and start :: int and k :: nat and x :: jsstring
  assume h: "0 < stabilityMs opts \<and> k \<le> n \<and> x \<noteq> [] \<and>
            (\<forall>i<k. read (start + int i * d) = Inr []) \<and>
            (\<forall>i\<le>n. read (start + int (k + i) * d) = Inr x) \<and>
            int (k + n) * d < maxTimeout opts"
  have dpos: "0 < d" using d timer_delay_pos by simp
  have npos: "0 < n" using h reach by (cases n) auto
  then obtain m where n: "n = Suc m" by (cases n) auto
  have mono: "\<And>i. i \<le> k + n \<Longrightarrow> start + int i * d - start < maxTimeout opts"
  proof -
    fix i assume "i \<le> k + n"
    then have "int i * d \<le> int (k + n) * d" using dpos by (simp add: mult_right_mono)
    with h show "start + int i * d - start < maxTimeout opts" by simp
  qed
  have phase1: "stabilityLoop read opts start [] start start =
                stabilityLoop read opts start [] start (start + int k * d)"
    using stabilityLoop_waiting_run [where d = d and opts = opts and k = k and read = read
        and now = start and c = "[]" and stableSince = start and start = start]
      d h below mono by auto
  have rk: "read (start + int k * d) = Inr x"
    using h [THEN conjunct2, THEN conjunct2, THEN conjunct2, THEN conjunct2, THEN conjunct1,
        rule_format, of 0] by simp
  have flip: "stabilityLoop read opts start [] start (start + int k * d) =
              stabilityLoop read opts start x (start + int k * d) (start + int k * d + d)"
    using stabilityLoop_change [where read = read and now = "start + int k * d"
        and opts = opts and start = start and current = x and lastText = "[]"
        and stableSince = start] mono [of k] rk h d by auto
  have shift: "\<And>i. start + int k * d + d + int i * d = start + int (k + Suc i) * d"
    by (simp add: algebra_simps)
  have phase2: "stabilityLoop read opts start x (start + int k * d) (start + int k * d + d) =
                Inr (x, start + int k * d + d + int m * d)"
  proof (rule stabilityLoop_stable_run [OF d])
    show "\<forall>i\<le>m. read (start + int k * d + d + int i * d) = Inr x"
      using h n by (auto simp: shift simp del: of_nat_Suc of_nat_add)
    show "\<forall>i<m. start + int k * d + d + int i * d - (start + int k * d) < stabilityMs opts"
    proof (intro allI impI)
      fix i assume "i < m"
      then have "Suc i < n" using n by simp
      then have "int (Suc i) * d < stabilityMs opts" using below by blast
      then show "start + int k * d + d + int i * d - (start + int k * d) < stabilityMs opts"
        by (simp add: algebra_simps)
    qed
    show "stabilityMs opts \<le> start + int k * d + d + int m * d - (start + int k * d)"
      using reach n by (simp add: algebra_simps)
    show "start + int k * d + d + int m * d - start < maxTimeout opts"
      using h n by (simp add: algebra_simps)
  qed
  show "waitForStability read opts start = Inr (x, start + int (k + n) * d)"
    unfolding waitForStability_def using phase1 flip phase2 n by (simp add: algebra_simps)
qed

theorem empty_render_completes_witness:
  "waitForStability (\<lambda>t. Inr []) default_opts 0 = Inr ([], 3000) \<and>
   waitForStability (\<lambda>t. Inr (if t < 2000 then [] else js ''Hi'')) default_opts 0
     = Inr (js ''Hi'', 5000)"
proof -
  have d: "(1000::int) = timer_delay (pollInterval default_opts)"
    by (simp add: timer_delay_def default_opts_def)
  have below: "\<forall>i<3::nat. int i * 1000 < stabilityMs default_opts"
    by (auto simp: default_opts_def)
  have reach: "stabilityMs default_opts \<le> int 3 * 1000"
    by (simp add: default_opts_def)
  note inst = empty_render_completes [OF d below reach]
  have a: "waitForStability (\<lambda>t. Inr []) default_opts 0 = Inr ([], 3000)"
    using inst [THEN conjunct1, rule_format, of "\<lambda>t. Inr []" 0]
    by (simp add: default_opts_def)
  have b: "waitForStability (\<lambda>t. Inr (if t < 2000 then [] else js ''Hi'')) default_opts 0
     = Inr (js ''Hi'', 5000)"
    using inst [THEN conjunct2, rule_format, of 2 "js ''Hi''"
        "\<lambda>t. Inr (if t < 2000 then [] else js ''Hi'')" 0]
    by (auto simp: default_opts_def js_def less_Suc_eq numeral_2_eq_2)
  from a b show ?thesis by simp
qed

section \<open>Properties of correlation\<close>

lemma injectSse_length: "length (injectSse entries sseText) = length entries"
  by (induction entries) auto

lemma injectSse_nth:
  "i < length entries \<Longrightarrow>
   injectSse entries sseText ! i =
     (if isEventStream (entries ! i) \<and> (\<forall>j<i. \<not> isEventStream (entries ! j))
      then setStreamBody (entries ! i) sseText else entries ! i)"
proof (induction entries arbitrary: i)
  case Nil
  then show ?case by simp
next
  case (Cons e es)
  show ?case
  proof (cases i)
    case 0
    then show ?thesis by simp
  next
    case (Suc k)
    with Cons.prems have k: "k < length es" by simp
    show ?thesis
    proof (cases "isEventStream e")
      case True
      then have "\<not> (\<forall>j<i. \<not> isEventStream ((e # es) ! j))"
        using Suc by (auto intro: exI [of _ 0])
      with True Suc show ?thesis by auto
    next
      case False
      have "(\<forall>j<i. \<not> isEventStream ((e # es) ! j)) = (\<forall>j<k. \<not> isEventStream (es ! j))"
        using False Suc by (auto simp: less_Suc_eq_0_disj)
      with False Suc Cons.IH [OF k] show ?thesis by auto
    qed
  qed
qed

lemma injectSse_miss:
  "\<forall>e\<in>set entries. \<not> isEventStream e \<Longrightarrow> injectSse entries sseText = entries"
  by (induction entries) auto

lemma setStreamBody_fields:
  "isEventStream entry \<Longrightarrow>
   \<exists>rsp c. response entry = Some rsp \<and> content rsp = Some c \<and>
     mimeType c = Some (js ''text/event-stream'') \<and>
     setStreamBody entry sseText =
       entry\<lparr>response := Some (rsp\<lparr>content := Some (c\<lparr>content_text := Some sseText,
                content_size := Some (int (byteLength sseText))\<rparr>)\<rparr>)\<rparr>"
  by (auto simp: isEventStream_def setStreamBody_def split: option.splits)

lemma files_emit [simp]: "files (emit ev w) = files w"
  by (simp add: emit_def)

lemma events_emit [simp]: "events (emit ev w) = events w @ [ev]"
  by (simp add: emit_def)

lemma files_writeFile [simp]: "files (writeFile p c w) = (files w)(p \<mapsto> c)"
  by (simp add: writeFile_def)

lemma events_writeFile [simp]: "events (writeFile p c w) = events w"
  by (simp add: writeFile_def)

lemma unhandled_emit [simp]: "unhandled (emit ev w) = unhandled w"
  by (simp add: emit_def)

lemma unhandled_writeFile [simp]: "unhandled (writeFile p c w) = unhandled w"
  by (simp add: writeFile_def)

lemma readHar_HarFile: "files w p = Some (HarFile entries) \<Longrightarrow> readHar w p = Inr entries"
  by (simp add: readHar_def)

subsection \<open>C1: correlation rewrites the first streaming entry only\<close>

text \<open>
  Claim C1. For every trace stored in the trace file and every captured stream text
  (possibly empty), correlation, when the rewritten file is written, stores the trace in
  which the first entry whose response content has the MIME type text/event-stream has
  the stream text as its body text and the UTF-8 byte length of the stream text as its
  declared size; that entry keeps all its other properties, the trace keeps its length,
  and every other entry, a later streaming entry included, is unchanged.
\<close>

theorem correlation_rewrites_first_stream_entry:
  assumes "files w harFilename = Some (HarFile entries)" and "har_write r = None"
  shows "files (injectSseIntoHar r harFilename sseText w) harFilename
           = Some (HarFile (injectSse entries sseText)) \<and>
         length (injectSse entries sseText) = length entries \<and>
         (\<forall>i<length entries.
            if isEventStream (entries ! i) \<and> (\<forall>j<i. \<not> isEventStream (entries ! j))
            then \<exists>rsp c. response (entries ! i) = Some rsp \<and> content rsp = Some c \<and>
                   mimeType c = Some (js ''text/event-stream'') \<and>
                   injectSse entries sseText ! i =
                     (entries ! i)\<lparr>response := Some (rsp\<lparr>content := Some
                        (c\<lparr>content_text := Some sseText,
                           content_size := Some (int (byteLength sseText))\<rparr>)\<rparr>)\<rparr>
            else injectSse entries sseText ! i = entries ! i)"
proof (intro conjI allI impI)
  show "files (injectSseIntoHar r harFilename sseText w) harFilename
          = Some (HarFile (injectSse entries sseText))"
    using assms by (simp add: injectSseIntoHar_def readHar_HarFile)
  show "length (injectSse entries sseText) = length entries"
    by (rule injectSse_length)
next
  fix i assume i: "i < length entries"
  show "if isEventStream (entries ! i) \<and> (\<forall>j<i. \<not> isEventStream (entries ! j))
        then \<exists>rsp c. response (entries ! i) = Some rsp \<and> content rsp = Some c \<and>
               mimeType c = Some (js ''text/event-stream'') \<and>
               injectSse entries sseText ! i =
                 (entries ! i)\<lparr>response := Some (rsp\<lparr>content := Some
                    (c\<lparr>content_text := Some sseText,
                       content_size := Some (int (byteLength sseText))\<rparr>)\<rparr>)\<rparr>
        else injectSse entries sseText ! i = entries ! i"
  proof (cases "isEventStream (entries ! i) \<and> (\<forall>j<i. \<not> isEventStream (entries ! j))")
    case True
    then show ?thesis
      using setStreamBody_fields [of "entries ! i" sseText] injectSse_nth [OF i, of sseText]
      by auto
  next
    case False
    then show ?thesis using injectSse_nth [OF i, of sseText] by auto
  qed
qed

theorem correlation_witness:
  "files (injectSseIntoHar (quiet_run [js ''Hello''] []) (HarPath (js ''out'') 1) [0x64, 0xE9]
      \<lparr>files = [HarPath (js ''out'') 1 \<mapsto> HarFile
          [plain_entry (js ''application/json'') (Some (js ''{}'')) 2,
           plain_entry (js ''text/event-stream'') None 0,
           plain_entry (js ''text/event-stream'') (Some (js ''x'')) 1]],
        events = [], unhandled = []\<rparr>) (HarPath (js ''out'') 1) =
     Some (HarFile
          [plain_entry (js ''application/json'') (Some (js ''{}'')) 2,
           plain_entry (js ''text/event-stream'') (Some [0x64, 0xE9]) 3,
           plain_entry (js ''text/event-stream'') (Some (js ''x'')) 1])"
  using correlation_rewrites_first_stream_entry
    [of "\<lparr>files = [HarPath (js ''out'') 1 \<mapsto> HarFile
          [plain_entry (js ''application/json'') (Some (js ''{}'')) 2,
           plain_entry (js ''text/event-stream'') None 0,
           plain_entry (js ''text/event-stream'') (Some (js ''x'')) 1]],
        events = [], unhandled = []\<rparr>" "HarPath (js ''out'') 1"
        "[plain_entry (js ''application/json'') (Some (js ''{}'')) 2,
           plain_entry (js ''text/event-stream'') None 0,
           plain_entry (js ''text/event-stream'') (Some (js ''x'')) 1]"
        "quiet_run [js ''Hello''] []" "[0x64, 0xE9]"]
  by (simp add: quiet_run_def plain_entry_def isEventStream_def setStreamBody_def js_def
      unit_bytes_def)

section \<open>Properties of the processing of one prompt\<close>

lemma attempts_append [simp]: "attempts (xs @ ys) = attempts xs @ attempts ys"
  by (induction xs rule: attempts.induct) auto

lemma submissions_append [simp]: "submissions (xs @ ys) = submissions xs @ submissions ys"
  by (induction xs rule: submissions.induct) auto

lemma console_append [simp]: "console (xs @ ys) = console xs @ console ys"
  by (induction xs rule: console.induct) auto

lemma attempts_Console [simp]: "attempts (map Console ls) = []"
  by (induction ls) auto

lemma submissions_Console [simp]: "submissions (map Console ls) = []"
  by (induction ls) auto

lemma stopHar_events:
  "events (stopHar r p w) =
     events w @ [Console (case har_stop r of Inr es \<Rightarrow> HarSaved p | Inl e \<Rightarrow> HarStopFailed e)]"
  by (simp add: stopHar_def split: sum.splits)

lemma stopHar_files:
  "files (stopHar r p w) =
     (case har_stop r of Inr es \<Rightarrow> (files w)(p \<mapsto> HarFile es) | Inl e \<Rightarrow> files w)"
  by (simp add: stopHar_def split: sum.splits)

lemma injectSseIntoHar_events:
  "events (injectSseIntoHar r p s w) =
     events w @ [Console (case readHar w p of
                            Inl e \<Rightarrow> InjectFailed e
                          | Inr es \<Rightarrow> (case har_write r of
                                         Some e \<Rightarrow> InjectFailed e
                                       | None \<Rightarrow> HarUpdated p))]"
  by (simp add: injectSseIntoHar_def split: sum.splits option.splits)

lemma injectSseIntoHar_files:
  "files (injectSseIntoHar r p s w) =
     (case readHar w p of
        Inl e \<Rightarrow> files w
      | Inr es \<Rightarrow> (case har_write r of
                     Some e \<Rightarrow> files w
                   | None \<Rightarrow> (files w)(p \<mapsto> HarFile (injectSse es s))))"
  by (simp add: injectSseIntoHar_def split: sum.splits option.splits)

lemma saveAnswer_events:
  "events (saveAnswer r p t a w) =
     events w @ [Console (case answer_write r of
                            Some e \<Rightarrow> AnswerWriteFailed e | None \<Rightarrow> AnswerSaved p)]"
  by (simp add: saveAnswer_def split: option.splits)

lemma saveAnswer_files:
  "files (saveAnswer r p t a w) =
     (case answer_write r of
        Some e \<Rightarrow> files w
      | None \<Rightarrow> (files w)(p \<mapsto> TextFile (answerFile t (iso_time r) a)))"
  by (simp add: saveAnswer_def split: option.splits)

lemma finallyBlock_events:
  "\<exists>l1 l2 l3. events (finallyBlock r outDir idx t captured w)
      = events w @ [Console l1, Console l2, Console l3]"
  by (cases captured)
     (simp add: finallyBlock_def saveAnswer_events injectSseIntoHar_events stopHar_events)

lemma finallyBlock_answer:
  "answer_write r = None \<Longrightarrow>
   files (finallyBlock r outDir idx t (finalAnswer, sseText) w) (AnswerPath outDir (Suc idx))
     = Some (TextFile (answerFile t (iso_time r) finalAnswer))"
  by (simp add: finallyBlock_def saveAnswer_files)

lemma finallyBlock_trace:
  "har_stop r = Inr entries \<Longrightarrow> har_write r = None \<Longrightarrow>
   files (finallyBlock r outDir idx t (finalAnswer, sseText) w) (HarPath outDir (Suc idx))
     = Some (HarFile (injectSse entries sseText))"
  by (simp add: finallyBlock_def saveAnswer_files injectSseIntoHar_files stopHar_files
      readHar_def split: option.splits)

lemma finallyBlock_trace':
  "har_stop r = Inr entries \<Longrightarrow> har_write r = None \<Longrightarrow>
   files (finallyBlock r outDir idx t captured w) (HarPath outDir (Suc idx))
     = Some (HarFile (injectSse entries (snd captured)))"
  by (cases captured) (simp add: finallyBlock_trace)

lemma finallyBlock_answer':
  "answer_write r = None \<Longrightarrow>
   files (finallyBlock r outDir idx t captured w) (AnswerPath outDir (Suc idx))
     = Some (TextFile (answerFile t (iso_time r) (fst captured)))"
  by (cases captured) (simp add: finallyBlock_answer)


lemma captureAndWait_events:
  "\<exists>ls. events (snd (captureAndWait detected r idx w)) = events w @ map Console ls"
proof -
  have one: "\<And>l w. events (emit (Console l) w) = events w @ map Console [l]" by simp
  show ?thesis
    unfolding captureAndWait_def
    by (cases "sse_response r"; cases detected)
       (auto simp: Let_def split: prod.splits intro: exI [of _ "[_]"] exI [of _ "[_, _]"])
qed







lemma events_orphanedWait [simp]: "events (orphanedWait r w) = events w"
  by (simp add: orphanedWait_def split: option.splits)

lemma files_orphanedWait [simp]: "files (orphanedWait r w) = files w"
  by (simp add: orphanedWait_def split: option.splits)

lemma unhandled_orphanedWait:
  "unhandled (orphanedWait r w)
     = unhandled w @ (case orphan_wait r of None \<Rightarrow> [] | Some e \<Rightarrow> [e])"
  by (simp add: orphanedWait_def split: option.splits)




lemma claudeTry_events:
  "\<exists>ls. events (snd (claudeTry r idx t w)) =
     events w @ (if submit r = None then [Submitted t] else []) @ map Console ls"
proof (cases "submit r = None")
  case True
  then show ?thesis
    using captureAndWait_events
      [of "waitForClaudeStability (dom r) default_opts (detect_at r)" r idx
          "emit (Submitted t) w"]
    by (auto simp: claudeTry_def)
next
  case False
  then show ?thesis
    by (auto simp: claudeTry_def split: option.splits intro: exI [of _ "[_]"])
qed


lemma gptPrompt_unfold:
  "har_start r = None \<Longrightarrow>
   gptPrompt r outDir n idx q w =
     (new_chat r,
      finallyBlock r outDir idx q
        (fst (gptTry r idx q (emit (HarStart outDir (idx + 1))
                (emit (Console (PromptBanner (idx + 1) n q)) w))))
        (snd (gptTry r idx q (emit (HarStart outDir (idx + 1))
                (emit (Console (PromptBanner (idx + 1) n q)) w)))))"
  by (simp add: gptPrompt_def Let_def split: prod.splits)

lemma claudePrompt_unfold:
  "har_start r = None \<Longrightarrow>
   claudePrompt r outDir n idx q w =
     (case new_chat r of None \<Rightarrow> None | Some e \<Rightarrow> reload r,
      (case new_chat r of None \<Rightarrow> (\<lambda>w. w) | Some e \<Rightarrow> emit (Console (NewChatFailed e)))
        (finallyBlock r outDir idx (js ''Search the web for: '' @ q)
          (fst (claudeTry r idx (js ''Search the web for: '' @ q)
                  (emit (HarStart outDir (idx + 1))
                     (emit (Console (PromptBanner (idx + 1) n (js ''Search the web for: '' @ q))) w))))
          (snd (claudeTry r idx (js ''Search the web for: '' @ q)
                  (emit (HarStart outDir (idx + 1))
                     (emit (Console (PromptBanner (idx + 1) n (js ''Search the web for: '' @ q))) w))))))"
  by (simp add: claudePrompt_def Let_def split: prod.splits option.splits)

lemma captureAndWait_files: "files (snd (captureAndWait detected r idx w)) = files w"
  unfolding captureAndWait_def
  by (cases "sse_response r"; cases detected) (auto simp: Let_def split: prod.splits)


lemma claudeTry_files: "files (snd (claudeTry r idx t w)) = files w"
  by (auto simp: claudeTry_def captureAndWait_files split: option.splits)

lemma finallyBlock_other_files:
  "p \<noteq> HarPath outDir (Suc idx) \<Longrightarrow> p \<noteq> AnswerPath outDir (Suc idx) \<Longrightarrow>
   files (finallyBlock r outDir idx t captured w) p = files w p"
  by (cases captured)
     (simp add: finallyBlock_def saveAnswer_files injectSseIntoHar_files stopHar_files
        split: option.splits sum.splits)


lemma claudePrompt_other_files:
  "p \<noteq> HarPath outDir (Suc idx) \<Longrightarrow> p \<noteq> AnswerPath outDir (Suc idx) \<Longrightarrow>
   files (snd (claudePrompt r outDir n idx q w)) p = files w p"
proof (cases "har_start r")
  case None
  assume "p \<noteq> HarPath outDir (Suc idx)" "p \<noteq> AnswerPath outDir (Suc idx)"
  with None show ?thesis
    by (simp add: claudePrompt_unfold finallyBlock_other_files claudeTry_files
        split: option.splits)
next
  case (Some e)
  then show ?thesis by (simp add: claudePrompt_def Let_def)
qed


lemma claudePrompt_events:
  "\<exists>ls. events (snd (claudePrompt r outDir n idx q w)) =
     events w @ Console (PromptBanner (idx + 1) n (js ''Search the web for: '' @ q)) #
       (if har_start r = None
        then HarStart outDir (idx + 1) #
             (if submit r = None then [Submitted (js ''Search the web for: '' @ q)] else [])
             @ map Console ls
        else [])"
proof (cases "har_start r")
  case (Some e)
  then show ?thesis by (simp add: claudePrompt_def Let_def)
next
  case None
  let ?t = "js ''Search the web for: '' @ q"
  let ?w0 = "emit (HarStart outDir (idx + 1)) (emit (Console (PromptBanner (idx + 1) n ?t)) w)"
  obtain ls where ls: "events (snd (claudeTry r idx ?t ?w0)) =
      events ?w0 @ (if submit r = None then [Submitted ?t] else []) @ map Console ls"
    using claudeTry_events [of r idx ?t ?w0] by blast
  obtain l1 l2 l3 where fin:
    "events (finallyBlock r outDir idx ?t (fst (claudeTry r idx ?t ?w0))
               (snd (claudeTry r idx ?t ?w0)))
       = events (snd (claudeTry r idx ?t ?w0)) @ [Console l1, Console l2, Console l3]"
    using finallyBlock_events by blast
  show ?thesis
  proof (cases "new_chat r")
    case None': None
    show ?thesis
      using None None' ls fin
      by (intro exI [of _ "ls @ [l1, l2, l3]"]) (simp add: claudePrompt_unfold)
  next
    case (Some e)
    show ?thesis
      using None Some ls fin
      by (intro exI [of _ "ls @ [l1, l2, l3, NewChatFailed e]"]) (simp add: claudePrompt_unfold)
  qed
qed

lemma gptPrompt_abort: "har_start r = Some e \<Longrightarrow> fst (gptPrompt r outDir n idx q w) = Some e"
  by (simp add: gptPrompt_def Let_def)

lemma claudePrompt_abort: "har_start r = Some e \<Longrightarrow> fst (claudePrompt r outDir n idx q w) = Some e"
  by (simp add: claudePrompt_def Let_def)




lemma claudePrompt_submissions:
  "submissions (events (snd (claudePrompt r outDir n idx q w))) =
     submissions (events w) @
       (if har_start r = None \<and> submit r = None then [js ''Search the web for: '' @ q] else [])"
  using claudePrompt_events [of r outDir n idx q w] by auto


lemma promptLoop_submissions:
  assumes pass: "\<And>r i q w. set (submissions (events (snd (pass r i q w))))
                    \<subseteq> set (submissions (events w)) \<union> {f q}"
  shows "set (submissions (events (snd (promptLoop pass env idx ps w))))
           \<subseteq> set (submissions (events w)) \<union> f ` set ps"
proof (induction ps arbitrary: idx w)
  case Nil
  then show ?case by simp
next
  case (Cons q ps)
  obtain res w1 where p: "pass (env idx) idx q w = (res, w1)" by (cases "pass (env idx) idx q w")
  have s1: "set (submissions (events w1)) \<subseteq> set (submissions (events w)) \<union> {f q}"
    using pass [of "env idx" idx q w] p by simp
  show ?case
  proof (cases res)
    case (Some e)
    with p s1 show ?thesis by auto
  next
    case None
    have "set (submissions (events (snd (promptLoop pass env (Suc idx) ps w1))))
            \<subseteq> set (submissions (events w1)) \<union> f ` set ps"
      by (rule Cons.IH)
    with p s1 None show ?thesis by auto
  qed
qed

lemma unhandled_finallyBlock [simp]:
  "unhandled (finallyBlock r outDir idx t captured w) = unhandled w"
  by (cases captured)
     (simp add: finallyBlock_def saveAnswer_def injectSseIntoHar_def stopHar_def
        split: option.splits sum.splits)

lemma unhandled_captureAndWait [simp]:
  "unhandled (snd (captureAndWait detected r idx w)) = unhandled w"
  unfolding captureAndWait_def
  by (cases "sse_response r"; cases detected) (auto simp: Let_def split: prod.splits)


lemma claudeTry_unhandled:
  "unhandled (snd (claudeTry r idx t w)) =
     unhandled w @ (if submit r \<noteq> None
                    then (case orphan_wait r of None \<Rightarrow> [] | Some e \<Rightarrow> [e]) else [])"
  by (auto simp: claudeTry_def unhandled_orphanedWait split: option.splits)


lemma claudePrompt_unhandled:
  "unhandled (snd (claudePrompt r outDir n idx q w)) =
     unhandled w @ (if har_start r = None \<and> submit r \<noteq> None
                    then (case orphan_wait r of None \<Rightarrow> [] | Some e \<Rightarrow> [e]) else [])"
proof (cases "har_start r")
  case None
  then show ?thesis by (simp add: claudePrompt_unfold claudeTry_unhandled split: option.splits)
next
  case (Some e)
  then show ?thesis by (simp add: claudePrompt_def Let_def)
qed

lemma gptPrompt_fst:
  "fst (gptPrompt r outDir n idx q w) = (case har_start r of Some e \<Rightarrow> Some e | None \<Rightarrow> new_chat r)"
  by (cases "har_start r") (simp_all add: gptPrompt_unfold gptPrompt_abort)

lemma claudePrompt_fst:
  "fst (claudePrompt r outDir n idx q w) =
     (case har_start r of
        Some e \<Rightarrow> Some e
      | None \<Rightarrow> (case new_chat r of None \<Rightarrow> None | Some e \<Rightarrow> reload r))"
  by (cases "har_start r") (simp_all add: claudePrompt_unfold claudePrompt_abort)

lemma claudePrompt_answer:
  "har_start r = None \<Longrightarrow> answer_write r = None \<Longrightarrow>
   \<exists>body. files (snd (claudePrompt r outDir n idx q w)) (AnswerPath outDir (Suc idx)) =
      Some (TextFile (js ''Prompt: '' @ (js ''Search the web for: '' @ q) @
                      js ''\<newline>Timestamp: '' @ iso_time r @ js ''\<newline>\<newline>'' @ body))"
  by (simp add: claudePrompt_unfold finallyBlock_answer' answerFile_def split: option.splits)

lemma promptLoop_after_pass:
  "promptLoop pass env idx (q # rest) w = pass (env idx) idx q w \<or>
   (fst (pass (env idx) idx q w) = None \<and> unhandled (snd (pass (env idx) idx q w)) = [] \<and>
    promptLoop pass env idx (q # rest) w
      = promptLoop pass env (Suc idx) rest (snd (pass (env idx) idx q w)))"
  by (cases "pass (env idx) idx q w") (auto split: option.splits)

lemma promptLoop_goes_on:
  "fst (pass (env idx) idx q w) = None \<Longrightarrow> unhandled (snd (pass (env idx) idx q w)) = [] \<Longrightarrow>
   promptLoop pass env idx (q # rest) w
     = promptLoop pass env (Suc idx) rest (snd (pass (env idx) idx q w))"
  by (cases "pass (env idx) idx q w") simp

lemma promptLoop_other_files:
  assumes frame: "\<And>r i q w. idx0 \<le> i \<Longrightarrow> files (snd (pass r i q w)) p = files w p"
  shows "idx0 \<le> idx \<Longrightarrow> files (snd (promptLoop pass env idx ps w)) p = files w p"
proof (induction ps arbitrary: idx w)
  case Nil
  then show ?case by simp
next
  case (Cons q rest)
  have one: "files (snd (pass (env idx) idx q w)) p = files w p"
    using frame Cons.prems by simp
  have "files (snd (promptLoop pass env (Suc idx) rest (snd (pass (env idx) idx q w)))) p
          = files (snd (pass (env idx) idx q w)) p"
    using Cons.IH [of "Suc idx"] Cons.prems by simp
  with one show ?case
    using promptLoop_after_pass [of pass env idx q rest w] by auto
qed

lemma promptLoop_submissions_grow:
  assumes grow: "\<And>r i q w. \<exists>xs. submissions (events (snd (pass r i q w)))
                    = submissions (events w) @ xs"
  shows "\<exists>xs. submissions (events (snd (promptLoop pass env idx ps w)))
           = submissions (events w) @ xs"
proof (induction ps arbitrary: idx w)
  case Nil
  then show ?case by simp
next
  case (Cons q rest)
  obtain xs where xs: "submissions (events (snd (pass (env idx) idx q w)))
      = submissions (events w) @ xs"
    using grow by blast
  obtain ys where ys:
    "submissions (events (snd (promptLoop pass env (Suc idx) rest (snd (pass (env idx) idx q w)))))
       = submissions (events (snd (pass (env idx) idx q w))) @ ys"
    using Cons.IH by blast
  show ?case
    using promptLoop_after_pass [of pass env idx q rest w] xs ys by auto
qed

lemma claudeLoop_each_prompt:
  assumes "unhandled w = []"
    and "i < length ps"
    and "\<forall>j<i. har_start (env (idx + j)) = None \<and>
               (new_chat (env (idx + j)) = None \<or> reload (env (idx + j)) = None) \<and>
               (submit (env (idx + j)) = None \<or> orphan_wait (env (idx + j)) = None)"
  shows "(har_start (env (idx + i)) = None \<and> submit (env (idx + i)) = None \<longrightarrow>
            js ''Search the web for: '' @ ps ! i
              \<in> set (submissions (events (snd (promptLoop (\<lambda>r. claudePrompt r outDir n) env idx ps w))))) \<and>
         (har_start (env (idx + i)) = None \<and> answer_write (env (idx + i)) = None \<longrightarrow>
            (\<exists>body. files (snd (promptLoop (\<lambda>r. claudePrompt r outDir n) env idx ps w))
                       (AnswerPath outDir (Suc (idx + i))) =
               Some (TextFile (js ''Prompt: '' @ (js ''Search the web for: '' @ ps ! i) @
                               js ''\<newline>Timestamp: '' @ iso_time (env (idx + i)) @
                               js ''\<newline>\<newline>'' @ body))))"
  using assms
proof (induction ps arbitrary: idx w i)
  case Nil
  then show ?case by simp
next
  case (Cons q rest)
  let ?P = "\<lambda>r. claudePrompt r outDir n"
  let ?w1 = "snd (claudePrompt (env idx) outDir n idx q w)"
  let ?W = "snd (promptLoop ?P env idx (q # rest) w)"
  show ?case
  proof (cases i)
    case 0
    have W: "?W = ?w1 \<or> ?W = snd (promptLoop ?P env (Suc idx) rest ?w1)"
      using promptLoop_after_pass [of ?P env idx q rest w] by auto
    obtain xs where xs: "submissions (events ?W) = submissions (events ?w1) @ xs"
    proof -
      obtain ys where "submissions (events (snd (promptLoop ?P env (Suc idx) rest ?w1)))
          = submissions (events ?w1) @ ys"
        using promptLoop_submissions_grow [of ?P env "Suc idx" rest ?w1]
        by (auto simp: claudePrompt_submissions)
      with W that show ?thesis by auto
    qed
    have keep: "files ?W (AnswerPath outDir (Suc idx)) = files ?w1 (AnswerPath outDir (Suc idx))"
    proof -
      have "files (snd (promptLoop ?P env (Suc idx) rest ?w1)) (AnswerPath outDir (Suc idx))
              = files ?w1 (AnswerPath outDir (Suc idx))"
        by (rule promptLoop_other_files [where ?idx0.0 = "Suc idx"])
           (simp_all add: claudePrompt_other_files)
      with W show ?thesis by auto
    qed
    show ?thesis
    proof (intro conjI impI)
      assume "har_start (env (idx + i)) = None \<and> submit (env (idx + i)) = None"
      with 0 xs show "js ''Search the web for: '' @ (q # rest) ! i \<in> set (submissions (events ?W))"
        by (simp add: claudePrompt_submissions)
    next
      assume "har_start (env (idx + i)) = None \<and> answer_write (env (idx + i)) = None"
      with 0 keep claudePrompt_answer [of "env idx" outDir n idx q w]
      show "\<exists>body. files ?W (AnswerPath outDir (Suc (idx + i))) =
               Some (TextFile (js ''Prompt: '' @ (js ''Search the web for: '' @ (q # rest) ! i) @
                               js ''\<newline>Timestamp: '' @ iso_time (env (idx + i)) @
                               js ''\<newline>\<newline>'' @ body))"
        by simp
    qed
  next
    case (Suc i')
    have c0: "har_start (env idx) = None \<and>
              (new_chat (env idx) = None \<or> reload (env idx) = None) \<and>
              (submit (env idx) = None \<or> orphan_wait (env idx) = None)"
      using Cons.prems(3) [rule_format, of 0] Suc by simp
    have f1: "fst (claudePrompt (env idx) outDir n idx q w) = None"
      using c0 by (auto simp: claudePrompt_fst split: option.splits)
    have u1: "unhandled ?w1 = []"
      using c0 Cons.prems(1) by (auto simp: claudePrompt_unhandled)
    have W: "promptLoop ?P env idx (q # rest) w = promptLoop ?P env (Suc idx) rest ?w1"
      using promptLoop_goes_on [of ?P env idx q w rest] f1 u1 by simp
    have later: "\<forall>j<i'. har_start (env (Suc idx + j)) = None \<and>
               (new_chat (env (Suc idx + j)) = None \<or> reload (env (Suc idx + j)) = None) \<and>
               (submit (env (Suc idx + j)) = None \<or> orphan_wait (env (Suc idx + j)) = None)"
    proof (intro allI impI)
      fix j assume "j < i'"
      then have "Suc j < i" using Suc by simp
      then show "har_start (env (Suc idx + j)) = None \<and>
               (new_chat (env (Suc idx + j)) = None \<or> reload (env (Suc idx + j)) = None) \<and>
               (submit (env (Suc idx + j)) = None \<or> orphan_wait (env (Suc idx + j)) = None)"
        using Cons.prems(3) [rule_format, of "Suc j"] by simp
    qed
    have i': "i' < length rest" using Cons.prems(2) Suc by simp
    show ?thesis
      using Cons.IH [OF u1 i' later] W Suc by simp
  qed
qed

lemma claudeLoop_all_sent:
  assumes "unhandled w = []"
    and "\<forall>i<length ps. har_start (env (idx + i)) = None \<and> submit (env (idx + i)) = None \<and>
           (new_chat (env (idx + i)) = None \<or> reload (env (idx + i)) = None)"
  shows "fst (promptLoop (\<lambda>r. claudePrompt r outDir n) env idx ps w) = None \<and>
         submissions (events (snd (promptLoop (\<lambda>r. claudePrompt r outDir n) env idx ps w)))
           = submissions (events w) @ map (\<lambda>q. js ''Search the web for: '' @ q) ps"
  using assms
proof (induction ps arbitrary: idx w)
  case Nil
  then show ?case by simp
next
  case (Cons q rest)
  let ?P = "\<lambda>r. claudePrompt r outDir n"
  let ?w1 = "snd (claudePrompt (env idx) outDir n idx q w)"
  have c0: "har_start (env idx) = None \<and> submit (env idx) = None \<and>
            (new_chat (env idx) = None \<or> reload (env idx) = None)"
    using Cons.prems(2) [rule_format, of 0] by simp
  have f1: "fst (claudePrompt (env idx) outDir n idx q w) = None"
    using c0 by (auto simp: claudePrompt_fst split: option.splits)
  have u1: "unhandled ?w1 = []"
    using c0 Cons.prems(1) by (auto simp: claudePrompt_unhandled)
  have s1: "submissions (events ?w1) = submissions (events w) @ [js ''Search the web for: '' @ q]"
    using c0 by (simp add: claudePrompt_submissions)
  have W: "promptLoop ?P env idx (q # rest) w = promptLoop ?P env (Suc idx) rest ?w1"
    using promptLoop_goes_on [of ?P env idx q w rest] f1 u1 by simp
  have later: "\<forall>i<length rest. har_start (env (Suc idx + i)) = None \<and>
      submit (env (Suc idx + i)) = None \<and>
      (new_chat (env (Suc idx + i)) = None \<or> reload (env (Suc idx + i)) = None)"
  proof (intro allI impI)
    fix i assume "i < length rest"
    then show "har_start (env (Suc idx + i)) = None \<and> submit (env (Suc idx + i)) = None \<and>
      (new_chat (env (Suc idx + i)) = None \<or> reload (env (Suc idx + i)) = None)"
      using Cons.prems(2) [rule_format, of "Suc i"] by simp
  qed
  show ?case
    using Cons.IH [OF u1 later] W s1 by simp
qed

lemma js_prefix_neq: "js ''Search the web for: '' @ q \<noteq> q"
  by (simp add: js_def)



subsection \<open>C4: the response file\<close>



subsection \<open>C5: a failed interaction is not retried\<close>




subsection \<open>C6: a correlation miss\<close>

theorem correlation_miss_logs_success:
  "console (events (injectSseIntoHar (quiet_run [js ''Hello''] []) (HarPath (js ''out'') 1)
      (js ''data: hi'')
      \<lparr>files = [HarPath (js ''out'') 1 \<mapsto> HarFile
          [plain_entry (js ''application/json'') (Some (js ''{}'')) 2]], events = [], unhandled = []\<rparr>))
     = [HarUpdated (HarPath (js ''out'') 1)] \<and>
   level (HarUpdated (HarPath (js ''out'') 1)) = Log \<and>
   filter (\<lambda>l. level l = Warn) (console (events (snd (gptPrompt
      (quiet_run [js ''Hello''] [plain_entry (js ''application/json'') (Some (js ''{}'')) 2])
      (js ''out'') 1 0 (js ''q'') empty_world)))) = []"
  by (simp add: quiet_run_def plain_entry_def isEventStream_def js_def
      injectSseIntoHar_def readHar_def emit_def writeFile_def
      enableWebSearch_def safeClick.simps
      empty_world_def gptPrompt_def gptTry_def captureAndWait_def finallyBlock_def stopHar_def
      saveAnswer_def answerFile_def
      waitForResponseStability_def waitForStability_def gptReadText_def
      trim_nonempty_def is_js_space_def stabilityLoop.simps default_opts_def timer_delay_def
      Let_def)

text \<open>
  Claim C6, as amended. When the trace of a prompt has no entry with the streaming
  content type, correlation logs no warning: it rewrites the trace file with every entry
  unchanged and prints the same line \<open>HAR updated\<close> with \<open>console.log\<close> as after a
  match. The pass of the prompt then ends exactly as the opening of the new chat ends, in
  both runners, so a miss does not stop the batch.
\<close>

theorem correlation_miss_keeps_trace:
  assumes miss: "\<forall>e\<in>set entries. \<not> isEventStream e"
  shows "(readHar w p = Inr entries \<and> har_write r = None \<longrightarrow>
            events (injectSseIntoHar r p s w) = events w @ [Console (HarUpdated p)] \<and>
            level (HarUpdated p) = Log \<and>
            files (injectSseIntoHar r p s w) = (files w)(p \<mapsto> HarFile entries)) \<and>
         (har_start rg = None \<and> har_stop rg = Inr entries \<and> har_write rg = None \<longrightarrow>
            fst (gptPrompt rg outDir n idx q wg) = new_chat rg \<and>
            files (snd (gptPrompt rg outDir n idx q wg)) (HarPath outDir (idx + 1))
              = Some (HarFile entries)) \<and>
         (har_start rc = None \<and> har_stop rc = Inr entries \<and> har_write rc = None \<longrightarrow>
            fst (claudePrompt rc outDir n idx q wc)
              = (case new_chat rc of None \<Rightarrow> None | Some e \<Rightarrow> reload rc) \<and>
            files (snd (claudePrompt rc outDir n idx q wc)) (HarPath outDir (idx + 1))
              = Some (HarFile entries))"
proof (intro conjI impI)
  assume "readHar w p = Inr entries \<and> har_write r = None"
  then show "events (injectSseIntoHar r p s w) = events w @ [Console (HarUpdated p)]"
    and "files (injectSseIntoHar r p s w) = (files w)(p \<mapsto> HarFile entries)"
    by (simp_all add: injectSseIntoHar_events injectSseIntoHar_files injectSse_miss [OF miss])
  show "level (HarUpdated p) = Log" by simp
next
  assume h: "har_start rg = None \<and> har_stop rg = Inr entries \<and> har_write rg = None"
  then show "fst (gptPrompt rg outDir n idx q wg) = new_chat rg"
    by (simp add: gptPrompt_unfold)
  from h show "files (snd (gptPrompt rg outDir n idx q wg)) (HarPath outDir (idx + 1))
              = Some (HarFile entries)"
    by (simp add: gptPrompt_unfold finallyBlock_trace' injectSse_miss [OF miss])
next
  assume h: "har_start rc = None \<and> har_stop rc = Inr entries \<and> har_write rc = None"
  then show "fst (claudePrompt rc outDir n idx q wc)
              = (case new_chat rc of None \<Rightarrow> None | Some e \<Rightarrow> reload rc)"
    by (simp add: claudePrompt_unfold)
  from h show "files (snd (claudePrompt rc outDir n idx q wc)) (HarPath outDir (idx + 1))
              = Some (HarFile entries)"
    by (simp add: claudePrompt_unfold finallyBlock_trace' injectSse_miss [OF miss]
        split: option.splits)
qed

theorem correlation_miss_witness:
  "events (injectSseIntoHar (quiet_run [js ''Hello''] []) (HarPath (js ''out'') 1) (js ''data: hi'')
      \<lparr>files = [HarPath (js ''out'') 1 \<mapsto> HarFile
          [plain_entry (js ''application/json'') (Some (js ''{}'')) 2]], events = [], unhandled = []\<rparr>)
     = [Console (HarUpdated (HarPath (js ''out'') 1))] \<and>
   fst (gptPrompt (quiet_run [js ''Hello'']
          [plain_entry (js ''application/json'') (Some (js ''{}'')) 2])
        (js ''out'') 1 0 (js ''q'') empty_world) = None \<and>
   files (snd (gptPrompt (quiet_run [js ''Hello'']
          [plain_entry (js ''application/json'') (Some (js ''{}'')) 2])
        (js ''out'') 1 0 (js ''q'') empty_world)) (HarPath (js ''out'') 1)
     = Some (HarFile [plain_entry (js ''application/json'') (Some (js ''{}'')) 2]) \<and>
   fst (claudePrompt (quiet_run [[js ''Hello'']]
          [plain_entry (js ''application/json'') (Some (js ''{}'')) 2])
        (js ''out'') 1 0 (js ''q'') empty_world) = None \<and>
   files (snd (claudePrompt (quiet_run [[js ''Hello'']]
          [plain_entry (js ''application/json'') (Some (js ''{}'')) 2])
        (js ''out'') 1 0 (js ''q'') empty_world)) (HarPath (js ''out'') 1)
     = Some (HarFile [plain_entry (js ''application/json'') (Some (js ''{}'')) 2])"
proof -
  have miss: "\<forall>e\<in>set [plain_entry (js ''application/json'') (Some (js ''{}'')) 2].
                \<not> isEventStream e"
    by (simp add: plain_entry_def isEventStream_def js_def)
  note inst = correlation_miss_keeps_trace [OF miss,
      of "\<lparr>files = [HarPath (js ''out'') 1 \<mapsto> HarFile
            [plain_entry (js ''application/json'') (Some (js ''{}'')) 2]], events = [], unhandled = []\<rparr>"
         "HarPath (js ''out'') 1" "quiet_run [js ''Hello''] []" "js ''data: hi''"
         "quiet_run [js ''Hello''] [plain_entry (js ''application/json'') (Some (js ''{}'')) 2]"
         "js ''out''" 1 0 "js ''q''" empty_world
         "quiet_run [[js ''Hello'']] [plain_entry (js ''application/json'') (Some (js ''{}'')) 2]"
         empty_world]
  have a: "events (injectSseIntoHar (quiet_run [js ''Hello''] []) (HarPath (js ''out'') 1)
      (js ''data: hi'')
      \<lparr>files = [HarPath (js ''out'') 1 \<mapsto> HarFile
          [plain_entry (js ''application/json'') (Some (js ''{}'')) 2]], events = [], unhandled = []\<rparr>)
     = [Console (HarUpdated (HarPath (js ''out'') 1))]"
    using inst [THEN conjunct1] by (simp add: readHar_def quiet_run_def)
  have b: "fst (gptPrompt (quiet_run [js ''Hello'']
          [plain_entry (js ''application/json'') (Some (js ''{}'')) 2])
        (js ''out'') 1 0 (js ''q'') empty_world) = None \<and>
   files (snd (gptPrompt (quiet_run [js ''Hello'']
          [plain_entry (js ''application/json'') (Some (js ''{}'')) 2])
        (js ''out'') 1 0 (js ''q'') empty_world)) (HarPath (js ''out'') 1)
     = Some (HarFile [plain_entry (js ''application/json'') (Some (js ''{}'')) 2])"
    using inst [THEN conjunct2, THEN conjunct1] by (simp add: quiet_run_def)
  have c: "fst (claudePrompt (quiet_run [[js ''Hello'']]
          [plain_entry (js ''application/json'') (Some (js ''{}'')) 2])
        (js ''out'') 1 0 (js ''q'') empty_world) = None \<and>
   files (snd (claudePrompt (quiet_run [[js ''Hello'']]
          [plain_entry (js ''application/json'') (Some (js ''{}'')) 2])
        (js ''out'') 1 0 (js ''q'') empty_world)) (HarPath (js ''out'') 1)
     = Some (HarFile [plain_entry (js ''application/json'') (Some (js ''{}'')) 2])"
    using inst [THEN conjunct2, THEN conjunct2] by (simp add: quiet_run_def)
  from a b c show ?thesis by simp
qed

subsection \<open>C9: the Claude runner prefixes every query\<close>

text \<open>
  Claim C9. In the Claude batch runner, started on an opened site, the pass of prompt
  \<open>i\<close> is reached when every pass before it ends without an error and without an
  unhandled rejection. For every prompt whose pass is reached: when the recorder starts
  and the prompt is sent, the text sent is the catalog query \<open>prompts[i]\<close> prefixed with
  \<open>Search the web for: \<close>; when the recorder starts and the response file is written,
  the file of prompt \<open>i\<close> begins with \<open>Prompt: \<close> and that same prefixed query. When
  every prompt is sent, the texts sent are exactly the prefixed queries in catalog
  order. Every text a batch sends is a prefixed query of the catalog, and the prefixed
  query is never the raw query.
\<close>

theorem claude_prompt_is_prefixed:
  assumes "open_site env = None" and "unhandled w = []"
  shows
   "(\<forall>i<length prompts.
       (\<forall>j<i. har_start (runs env j) = None \<and>
               (new_chat (runs env j) = None \<or> reload (runs env j) = None) \<and>
               (submit (runs env j) = None \<or> orphan_wait (runs env j) = None)) \<longrightarrow>
       (har_start (runs env i) = None \<and> submit (runs env i) = None \<longrightarrow>
          js ''Search the web for: '' @ prompts ! i
            \<in> set (submissions (events (snd (processPromptsBatchClaude env prompts outDir w))))) \<and>
       (har_start (runs env i) = None \<and> answer_write (runs env i) = None \<longrightarrow>
          (\<exists>body. files (snd (processPromptsBatchClaude env prompts outDir w))
                     (AnswerPath outDir (Suc i)) =
             Some (TextFile (js ''Prompt: '' @ (js ''Search the web for: '' @ prompts ! i) @
                             js ''\<newline>Timestamp: '' @ iso_time (runs env i) @
                             js ''\<newline>\<newline>'' @ body))))) \<and>
    ((\<forall>i<length prompts. har_start (runs env i) = None \<and> submit (runs env i) = None \<and>
         (new_chat (runs env i) = None \<or> reload (runs env i) = None)) \<longrightarrow>
       fst (processPromptsBatchClaude env prompts outDir w) = None \<and>
       submissions (events (snd (processPromptsBatchClaude env prompts outDir w)))
         = submissions (events w) @ map (\<lambda>q. js ''Search the web for: '' @ q) prompts) \<and>
    set (submissions (events (snd (processPromptsBatchClaude env prompts outDir w))))
      \<subseteq> set (submissions (events w)) \<union> (\<lambda>q. js ''Search the web for: '' @ q) ` set prompts \<and>
    (\<forall>q. js ''Search the web for: '' @ q \<noteq> q)"
proof -
  let ?P = "\<lambda>r. claudePrompt r outDir (length prompts)"
  have run: "processPromptsBatchClaude env prompts outDir w = promptLoop ?P (runs env) 0 prompts w"
    using assms(1) by (simp add: processPromptsBatchClaude_def)
  have each: "\<forall>i<length prompts.
       (\<forall>j<i. har_start (runs env j) = None \<and>
               (new_chat (runs env j) = None \<or> reload (runs env j) = None) \<and>
               (submit (runs env j) = None \<or> orphan_wait (runs env j) = None)) \<longrightarrow>
       (har_start (runs env i) = None \<and> submit (runs env i) = None \<longrightarrow>
          js ''Search the web for: '' @ prompts ! i
            \<in> set (submissions (events (snd (promptLoop ?P (runs env) 0 prompts w))))) \<and>
       (har_start (runs env i) = None \<and> answer_write (runs env i) = None \<longrightarrow>
          (\<exists>body. files (snd (promptLoop ?P (runs env) 0 prompts w))
                     (AnswerPath outDir (Suc i)) =
             Some (TextFile (js ''Prompt: '' @ (js ''Search the web for: '' @ prompts ! i) @
                             js ''\<newline>Timestamp: '' @ iso_time (runs env i) @
                             js ''\<newline>\<newline>'' @ body))))"
  proof (intro allI impI)
    fix i
    assume i: "i < length prompts"
      and before: "\<forall>j<i. har_start (runs env j) = None \<and>
               (new_chat (runs env j) = None \<or> reload (runs env j) = None) \<and>
               (submit (runs env j) = None \<or> orphan_wait (runs env j) = None)"
    show "(har_start (runs env i) = None \<and> submit (runs env i) = None \<longrightarrow>
          js ''Search the web for: '' @ prompts ! i
            \<in> set (submissions (events (snd (promptLoop ?P (runs env) 0 prompts w))))) \<and>
       (har_start (runs env i) = None \<and> answer_write (runs env i) = None \<longrightarrow>
          (\<exists>body. files (snd (promptLoop ?P (runs env) 0 prompts w))
                     (AnswerPath outDir (Suc i)) =
             Some (TextFile (js ''Prompt: '' @ (js ''Search the web for: '' @ prompts ! i) @
                             js ''\<newline>Timestamp: '' @ iso_time (runs env i) @
                             js ''\<newline>\<newline>'' @ body))))"
      using claudeLoop_each_prompt [of w i prompts "runs env" 0 outDir "length prompts"]
        assms(2) i before
      by simp
  qed
  have all: "(\<forall>i<length prompts. har_start (runs env i) = None \<and> submit (runs env i) = None \<and>
         (new_chat (runs env i) = None \<or> reload (runs env i) = None)) \<longrightarrow>
       fst (promptLoop ?P (runs env) 0 prompts w) = None \<and>
       submissions (events (snd (promptLoop ?P (runs env) 0 prompts w)))
         = submissions (events w) @ map (\<lambda>q. js ''Search the web for: '' @ q) prompts"
    using claudeLoop_all_sent [of w prompts "runs env" 0 outDir "length prompts"] assms(2)
    by simp
  have bound: "set (submissions (events (snd (promptLoop ?P (runs env) 0 prompts w))))
      \<subseteq> set (submissions (events w)) \<union> (\<lambda>q. js ''Search the web for: '' @ q) ` set prompts"
    by (rule promptLoop_submissions) (auto simp: claudePrompt_submissions)
  from each all bound js_prefix_neq show ?thesis
    unfolding run by blast
qed

theorem claude_prompt_witness:
  "open_site (retry_env [[js ''Hello'']]) = None \<and> unhandled empty_world = [] \<and>
   fst (processPromptsBatchClaude (retry_env [[js ''Hello'']]) [js ''q1'', js ''q2'']
      (js ''out'') empty_world) = None \<and>
   submissions (events (snd (processPromptsBatchClaude (retry_env [[js ''Hello'']])
      [js ''q1'', js ''q2''] (js ''out'') empty_world)))
     = [js ''Search the web for: q1'', js ''Search the web for: q2''] \<and>
   (\<exists>body. files (snd (processPromptsBatchClaude (retry_env [[js ''Hello'']])
      [js ''q1'', js ''q2''] (js ''out'') empty_world)) (AnswerPath (js ''out'') 2) =
      Some (TextFile (js ''Prompt: Search the web for: q2\<newline>Timestamp: 2025-01-01T00:00:00.000Z\<newline>\<newline>''
              @ body)))"
proof -
  let ?env = "retry_env [[js ''Hello'']] :: jsstring list list batch_env"
  let ?ps = "[js ''q1'', js ''q2'']"
  have o: "open_site ?env = None" by (simp add: retry_env_def)
  have u: "unhandled empty_world = []" by (simp add: empty_world_def)
  have good: "\<And>i. har_start (runs ?env i) = None \<and> submit (runs ?env i) = None \<and>
      new_chat (runs ?env i) = None \<and> answer_write (runs ?env i) = None \<and>
      iso_time (runs ?env i) = js ''2025-01-01T00:00:00.000Z''"
    by (simp add: retry_env_def detached_run_def quiet_run_def)
  note inst = claude_prompt_is_prefixed [OF o u, of ?ps "js ''out''"]
  from inst [THEN conjunct2, THEN conjunct1] good
  have a: "fst (processPromptsBatchClaude ?env ?ps (js ''out'') empty_world) = None"
    and b: "submissions (events (snd (processPromptsBatchClaude ?env ?ps (js ''out'') empty_world)))
     = [js ''Search the web for: q1'', js ''Search the web for: q2'']"
    by (simp_all add: empty_world_def js_def)
  have "\<exists>body. files (snd (processPromptsBatchClaude ?env ?ps (js ''out'') empty_world))
                     (AnswerPath (js ''out'') (Suc 1)) =
             Some (TextFile (js ''Prompt: '' @ (js ''Search the web for: '' @ ?ps ! 1) @
                             js ''\<newline>Timestamp: '' @ iso_time (runs ?env 1) @
                             js ''\<newline>\<newline>'' @ body))"
    using inst [THEN conjunct1, rule_format, of 1] good by simp
  then have c: "\<exists>body. files (snd (processPromptsBatchClaude ?env ?ps (js ''out'') empty_world))
      (AnswerPath (js ''out'') 2) =
      Some (TextFile (js ''Prompt: Search the web for: q2\<newline>Timestamp: 2025-01-01T00:00:00.000Z\<newline>\<newline>''
              @ body))"
    using good [of 1] by (simp add: js_def numeral_2_eq_2)
  from o u a b c show ?thesis by simp
qed

section \<open>Properties of start-up\<close>

lemma loadJobs_bad_source:
  "loadCsvPrompts (csv_files env) (job_file j) = Inl e \<Longrightarrow>
   \<exists>e'. loadJobs env (pre @ j # post) w = (Inl e', snd (loadJobs env pre w))"
proof (induction pre arbitrary: w)
  case Nil
  then show ?case by simp
next
  case (Cons p ps)
  show ?case
  proof (cases "loadCsvPrompts (csv_files env) (job_file p)")
    case (Inl e1)
    then show ?thesis by simp
  next
    case (Inr prompts)
    obtain res w1 where s: "savePromptsCatalog env (job_outDir p) (job_file p) prompts
        (emit (Console (LoadedPrompts (length prompts) (job_file p))) w) = (res, w1)"
      by (cases "savePromptsCatalog env (job_outDir p) (job_file p) prompts
        (emit (Console (LoadedPrompts (length prompts) (job_file p))) w)")
    show ?thesis
    proof (cases res)
      case (Some e2)
      with Inr s show ?thesis by simp
    next
      case None
      obtain e' where "loadJobs env (ps @ j # post) w1 = (Inl e', snd (loadJobs env ps w1))"
        using Cons.IH [OF Cons.prems, of w1] by blast
      with Inr s None show ?thesis
        by (cases "loadJobs env ps w1") (auto split: sum.splits)
    qed
  qed
qed

lemma savePromptsCatalog_no_launch:
  "BrowserLaunched \<notin> set (events w) \<Longrightarrow>
   BrowserLaunched \<notin> set (events (snd (savePromptsCatalog env dir f ps w)))"
  by (auto simp: savePromptsCatalog_def split: option.splits)

lemma loadJobs_no_launch:
  "BrowserLaunched \<notin> set (events w) \<Longrightarrow>
   BrowserLaunched \<notin> set (events (snd (loadJobs env jobs w)))"
proof (induction jobs arbitrary: w)
  case Nil
  then show ?case by simp
next
  case (Cons p ps)
  show ?case
  proof (cases "loadCsvPrompts (csv_files env) (job_file p)")
    case (Inl e1)
    with Cons.prems show ?thesis by simp
  next
    case (Inr prompts)
    let ?w0 = "emit (Console (LoadedPrompts (length prompts) (job_file p))) w"
    obtain res w1 where s: "savePromptsCatalog env (job_outDir p) (job_file p) prompts ?w0
        = (res, w1)"
      by (cases "savePromptsCatalog env (job_outDir p) (job_file p) prompts ?w0")
    have "BrowserLaunched \<notin> set (events ?w0)" using Cons.prems by simp
    then have w1: "BrowserLaunched \<notin> set (events w1)"
      using savePromptsCatalog_no_launch [of ?w0 env "job_outDir p" "job_file p" prompts] s
      by simp
    show ?thesis
    proof (cases res)
      case (Some e2)
      with Inr s w1 show ?thesis by simp
    next
      case None
      have "BrowserLaunched \<notin> set (events (snd (loadJobs env ps w1)))"
        using Cons.IH [OF w1] .
      with Inr s None show ?thesis
        by (cases "loadJobs env ps w1") (auto split: sum.splits)
    qed
  qed
qed

lemma mainFlow_bad_source:
  assumes "loadCsvPrompts (csv_files env) (job_file j) = Inl e"
  shows "\<exists>e'. mainFlow batch env benv (pre @ j # post) w = (Some e', snd (loadJobs env pre w))"
proof -
  obtain e' where "loadJobs env (pre @ j # post) w = (Inl e', snd (loadJobs env pre w))"
    using loadJobs_bad_source [OF assms] by blast
  then show ?thesis by (simp add: mainFlow_def)
qed

lemma mainFlow_bad_source_no_launch:
  assumes "loadCsvPrompts (csv_files env) (job_file j) = Inl e"
    and "BrowserLaunched \<notin> set (events w)"
  shows "BrowserLaunched \<notin> set (events (snd (mainFlow batch env benv (pre @ j # post) w)))"
proof -
  obtain e' where "mainFlow batch env benv (pre @ j # post) w = (Some e', snd (loadJobs env pre w))"
    using mainFlow_bad_source [OF assms(1)] by blast
  then show ?thesis using loadJobs_no_launch [OF assms(2)] by simp
qed

subsection \<open>C8: a source with the column whose first row is short\<close>

text \<open>
  Claim C8, at a source the code gets wrong. \<open>loadCsvPrompts\<close> looks for the
  \<open>query\<close> column in the first record, not in the header. The source \<open>short.csv\<close>
  has the header \<open>id,query\<close> and the data rows \<open>1\<close> and \<open>2,x\<close>: its first record has
  no \<open>query\<close> property, so loading throws \<open>CSV does not have a 'query' header column\<close>,
  the error of a source without the column (\<open>noquery.csv\<close>), and the main flow ends
  with it at start-up, although the header has the column. The same two rows in the
  other order load, the absent cell as the empty string, as the function's own
  \<open>r.query === undefined ? ''\<close> provides; so does an empty cell in the first row.
\<close>

theorem short_first_row_is_rejected:
  "js ''query'' \<in> set [js ''id'', js ''query''] \<and>
   sample_csv (js ''short.csv'')
     = Some (Records (toRecords [js ''id'', js ''query''] [[js ''1''], [js ''2'', js ''x'']])) \<and>
   loadCsvPrompts sample_csv (js ''short.csv'')
     = Inl (js ''CSV does not have a '' @ [0x27] @ js ''query'' @ [0x27]
            @ js '' header column: short.csv'') \<and>
   mainGPT sample_env (\<lambda>k. retry_env [js ''Hello''])
     [\<lparr>job_file = js ''short.csv'', job_outDir = js ''a_gpt-5_1''\<rparr>] empty_world
     = (Some (js ''CSV does not have a '' @ [0x27] @ js ''query'' @ [0x27]
              @ js '' header column: short.csv''), empty_world) \<and>
   loadCsvPrompts
     [js ''swapped.csv'' \<mapsto>
        Records (toRecords [js ''id'', js ''query''] [[js ''2'', js ''x''], [js ''1'']])]
     (js ''swapped.csv'') = Inr [js ''x'', []] \<and>
   loadCsvPrompts sample_csv (js ''noquery.csv'')
     = Inl (js ''CSV does not have a '' @ [0x27] @ js ''query'' @ [0x27]
            @ js '' header column: noquery.csv'') \<and>
   loadCsvPrompts
     [js ''blank.csv'' \<mapsto>
        Records (toRecords [js ''id'', js ''query''] [[js ''1'', []], [js ''2'', js ''x'']])]
     (js ''blank.csv'') = Inr [[], js ''x'']"
  by (simp add: loadCsvPrompts_def toRecords_def sample_csv_def sample_env_def mainGPT_def
      mainFlow_def js_def)

subsection \<open>C10: an empty catalog is fatal too\<close>

text \<open>
  Claim C10. For a source that parses to zero data rows, \<open>loadCsvPrompts\<close> throws
  \<open>CSV has no data rows\<close>, and the main flow ends with an error at start-up, before the
  browser is launched and with nothing produced for that job or the jobs after it.
\<close>

theorem empty_catalog_is_fatal:
  "csv_files env (job_file j) = Some (Records []) \<longrightarrow>
     loadCsvPrompts (csv_files env) (job_file j) = Inl (js ''CSV has no data rows: '' @ job_file j) \<and>
     mainFlow batch env benv (j # post) w = (Some (js ''CSV has no data rows: '' @ job_file j), w) \<and>
     (\<exists>e. mainFlow batch env benv (pre @ j # post) w = (Some e, snd (loadJobs env pre w))) \<and>
     (BrowserLaunched \<notin> set (events w) \<longrightarrow>
        BrowserLaunched \<notin> set (events (snd (mainFlow batch env benv (pre @ j # post) w))))"
proof (intro impI conjI)
  assume h: "csv_files env (job_file j) = Some (Records [])"
  then show e: "loadCsvPrompts (csv_files env) (job_file j)
      = Inl (js ''CSV has no data rows: '' @ job_file j)"
    by (simp add: loadCsvPrompts_def)
  then show "mainFlow batch env benv (j # post) w
      = (Some (js ''CSV has no data rows: '' @ job_file j), w)"
    by (simp add: mainFlow_def)
  show "\<exists>e. mainFlow batch env benv (pre @ j # post) w = (Some e, snd (loadJobs env pre w))"
    by (rule mainFlow_bad_source [OF e])
  show "BrowserLaunched \<notin> set (events (snd (mainFlow batch env benv (pre @ j # post) w)))"
    if "BrowserLaunched \<notin> set (events w)"
    by (rule mainFlow_bad_source_no_launch [OF e that])
qed

theorem empty_catalog_witness:
  "csv_files sample_env (js ''empty.csv'') = Some (Records []) \<and>
   mainGPT sample_env (\<lambda>k. retry_env [js ''Hello''])
     [\<lparr>job_file = js ''empty.csv'', job_outDir = js ''a_gpt-5_1''\<rparr>] empty_world
     = (Some (js ''CSV has no data rows: empty.csv''), empty_world)"
proof -
  have h: "csv_files sample_env (job_file \<lparr>job_file = js ''empty.csv'', job_outDir = js ''a_gpt-5_1''\<rparr>)
      = Some (Records [])"
    by (simp add: sample_env_def sample_csv_def js_def)
  from empty_catalog_is_fatal
      [where env = sample_env and j = "\<lparr>job_file = js ''empty.csv'', job_outDir = js ''a_gpt-5_1''\<rparr>"
         and batch = processPromptsBatchGPT and benv = "\<lambda>k. retry_env [js ''Hello'']"
         and post = "[]" and w = empty_world and pre = "[]", rule_format, OF h]
  have "mainFlow processPromptsBatchGPT sample_env (\<lambda>k. retry_env [js ''Hello''])
     [\<lparr>job_file = js ''empty.csv'', job_outDir = js ''a_gpt-5_1''\<rparr>] empty_world
     = (Some (js ''CSV has no data rows: '' @ js ''empty.csv''), empty_world)"
    by simp
  with h show ?thesis by (simp add: mainGPT_def js_def)
qed

end
